theory Spec2Isabelle
  imports Complex_Main "HOL-Library.Word"
begin

unbundle bit_operations_syntax

section \<open>The intermediate representation\<close>

text \<open>
  The operation kinds of \<^verbatim>\<open>enum class ExprOpType\<close>, in the order of the source. The
  constructors whose names are syntax of HOL carry the suffix \<^verbatim>\<open>_OP\<close>.
\<close>

datatype ExprOpType =
    MEM_LOAD | MEM_LOAD_VAR
  | CONSTANTI | CONSTANTF | CONST_LOAD
  | VAR_LOAD | VAR_STORE
  | ADD | SUB | MUL | DIV | MOD | SQRT | ABS | MAX_OP | MIN_OP | CLAMP | CMP
  | TRUNC | ROUND | FLOOR
  | AND_OP | OR_OP | XOR_OP | NOT_OP
  | BITAND | BITOR | BITXOR | BITNOT
  | EXP | LOG | POW | SIN | COS
  | TERNARY
  | SORT
  | DUP | SWAP | DROP
  | ARGMIN | ARGMAX | ARGSORT

datatype BoundaryCondition = Unspecified | Clamped | Mirrored

text \<open>
  \<^verbatim>\<open>union ExprUnion { int32_t i; uint32_t u; float f; }\<close> is its 32 bits: member
  \<^verbatim>\<open>u\<close> is the word itself, member \<^verbatim>\<open>i\<close> is \<open>sint\<close> of it and member
  \<^verbatim>\<open>f\<close> is the binary32 value with these bits.
\<close>

type_synonym ExprUnion = "32 word"

text \<open>
  \<^verbatim>\<open>struct ExprOp\<close>. The source's fields \<^verbatim>\<open>type\<close>, \<^verbatim>\<open>name\<close>, \<^verbatim>\<open>x\<close> and
  \<^verbatim>\<open>y\<close> are \<open>optype\<close>, \<open>opname\<close>, \<open>dx\<close> and \<open>dy\<close> here.
\<close>

record ExprOp =
  optype :: ExprOpType
  imm :: ExprUnion
  opname :: string
  dx :: int
  dy :: int
  bc :: BoundaryCondition

text \<open>The constructor \<^verbatim>\<open>ExprOp(type, param = {}, name = {}, x = 0, y = 0, bc = Unspecified)\<close>.\<close>

definition mkExprOp :: "ExprOpType \<Rightarrow> ExprUnion \<Rightarrow> string \<Rightarrow> int \<Rightarrow> int \<Rightarrow> BoundaryCondition \<Rightarrow> ExprOp" where
  "mkExprOp t p n x y b = \<lparr>optype = t, imm = p, opname = n, dx = x, dy = y, bc = b\<rparr>"

definition mkOp :: "ExprOpType \<Rightarrow> ExprOp" where
  "mkOp t = mkExprOp t 0 [] 0 0 Unspecified"

definition mkOpImm :: "ExprOpType \<Rightarrow> ExprUnion \<Rightarrow> ExprOp" where
  "mkOpImm t p = mkExprOp t p [] 0 0 Unspecified"

text \<open>\<^verbatim>\<open>bool operator==(const ExprOp &lhs, const ExprOp &rhs)\<close>: the field \<open>bc\<close> is not compared.\<close>

definition op_eq :: "ExprOp \<Rightarrow> ExprOp \<Rightarrow> bool" where
  "op_eq lhs rhs \<longleftrightarrow>
     optype lhs = optype rhs \<and> imm lhs = imm rhs \<and> opname lhs = opname rhs \<and>
     dx lhs = dx rhs \<and> dy lhs = dy rhs"

section \<open>Characters, integers and binary32 values of the C++ library\<close>

text \<open>\<^verbatim>\<open>std::isspace\<close> and the digits in the "C" locale.\<close>

definition isspace :: "char \<Rightarrow> bool" where
  "isspace c \<longleftrightarrow> c = CHR '' '' \<or> (9 \<le> (of_char c :: nat) \<and> (of_char c :: nat) \<le> 13)"

definition isdigit :: "char \<Rightarrow> bool" where
  "isdigit c \<longleftrightarrow> 48 \<le> (of_char c :: nat) \<and> (of_char c :: nat) \<le> 57"

definition islower :: "char \<Rightarrow> bool" where
  "islower c \<longleftrightarrow> 97 \<le> (of_char c :: nat) \<and> (of_char c :: nat) \<le> 122"

text \<open>The value of a character as a digit of \<^verbatim>\<open>strtol\<close>: 0-9, then a-z or A-Z for 10-35.\<close>

definition digit_of :: "char \<Rightarrow> nat option" where
  "digit_of c =
     (let n = (of_char c :: nat) in
      if 48 \<le> n \<and> n \<le> 57 then Some (n - 48)
      else if 97 \<le> n \<and> n \<le> 122 then Some (n - 87)
      else if 65 \<le> n \<and> n \<le> 90 then Some (n - 55)
      else None)"

text \<open>The longest run of digits of the base: its value and its length.\<close>

fun parse_digits :: "nat \<Rightarrow> string \<Rightarrow> int \<Rightarrow> nat \<Rightarrow> int \<times> nat" where
  "parse_digits base [] acc k = (acc, k)"
| "parse_digits base (c # cs) acc k =
     (case digit_of c of
        None \<Rightarrow> (acc, k)
      | Some v \<Rightarrow>
          if v < base then parse_digits base cs (acc * int base + int v) (Suc k) else (acc, k))"

text \<open>
  The subject sequence of \<^verbatim>\<open>strtol\<close>/\<^verbatim>\<open>strtoll\<close>: white space, an optional sign,
  with base 0 the prefix that chooses the base (\<^verbatim>\<open>0x\<close> before a hexadecimal digit, a
  leading \<^verbatim>\<open>0\<close> for octal), and the digits. The result is the value and the number of
  characters consumed, or \<open>None\<close> when there is no digit to convert.
\<close>

definition strto :: "nat \<Rightarrow> string \<Rightarrow> (int \<times> nat) option" where
  "strto base s =
     (let ws = length (takeWhile isspace s);
          s1 = drop ws s;
          neg = (take 1 s1 = ''-'');
          sg = (if take 1 s1 = ''-'' \<or> take 1 s1 = ''+'' then 1 else 0);
          s2 = drop sg s1;
          hex = (base = 0 \<and> (take 2 s2 = ''0x'' \<or> take 2 s2 = ''0X'') \<and>
                 (case drop 2 s2 of [] \<Rightarrow> False
                  | h # _ \<Rightarrow> (case digit_of h of None \<Rightarrow> False | Some v \<Rightarrow> v < 16)));
          b = (if base \<noteq> 0 then base else if hex then 16 else if take 1 s2 = ''0'' then 8 else 10);
          pre = (if hex then 2 else 0);
          (v, k) = parse_digits b (drop pre s2) 0 0
      in if k = 0 then None
         else Some (if neg then - v else v, ws + sg + pre + k))"

text \<open>
  \<^verbatim>\<open>std::stoi(str, &count)\<close> and \<^verbatim>\<open>std::stoll(str, &pos, 0)\<close>: \<open>None\<close> when the
  function throws (\<^verbatim>\<open>invalid_argument\<close> without a digit, \<^verbatim>\<open>out_of_range\<close>
  outside \<^verbatim>\<open>int\<close> or \<^verbatim>\<open>long long\<close>).
\<close>

definition stoi :: "string \<Rightarrow> (int \<times> nat) option" where
  "stoi s =
     (case strto 10 s of
        None \<Rightarrow> None
      | Some (v, k) \<Rightarrow> if - (2 ^ 31) \<le> v \<and> v < 2 ^ 31 then Some (v, k) else None)"

definition stoll0 :: "string \<Rightarrow> (int \<times> nat) option" where
  "stoll0 s =
     (case strto 0 s of
        None \<Rightarrow> None
      | Some (v, k) \<Rightarrow> if - (2 ^ 63) \<le> v \<and> v < 2 ^ 63 then Some (v, k) else None)"

text \<open>
  \<^verbatim>\<open>atoi\<close>: 0 without a digit; a value outside \<^verbatim>\<open>int\<close> is undefined behaviour,
  here \<open>None\<close>.
\<close>

definition atoi :: "string \<Rightarrow> int option" where
  "atoi s =
     (case strto 10 s of
        None \<Rightarrow> Some 0
      | Some (v, k) \<Rightarrow> if - (2 ^ 31) \<le> v \<and> v < 2 ^ 31 then Some v else None)"

subsection \<open>binary32\<close>

text \<open>
  A \<^verbatim>\<open>float\<close> is its 32 bits, read as the number \<open>uint w\<close>: sign (bit 31), biased
  exponent (bits 30-23) and fraction (bits 22-0). Only the conversions and the comparison that the decoder, the code
  generator and the property writer apply to immediates are defined.
\<close>

definition f32_sign :: "32 word \<Rightarrow> bool" where
  "f32_sign w \<longleftrightarrow> 2 ^ 31 \<le> uint w"

definition f32_exp :: "32 word \<Rightarrow> nat" where
  "f32_exp w = nat ((uint w div 2 ^ 23) mod 2 ^ 8)"

definition f32_man :: "32 word \<Rightarrow> int" where
  "f32_man w = uint w mod 2 ^ 23"

definition f32_is_nan :: "32 word \<Rightarrow> bool" where
  "f32_is_nan w \<longleftrightarrow> f32_exp w = 255 \<and> f32_man w \<noteq> 0"

text \<open>The integer part, towards zero, of a finite value; \<open>None\<close> for an infinity or a NaN.\<close>

definition f32_trunc :: "32 word \<Rightarrow> int option" where
  "f32_trunc w =
     (let e = f32_exp w;
          m = (if e = 0 then f32_man w else 2 ^ 23 + f32_man w);
          mag = (if 150 \<le> e then m * 2 ^ (e - 150) else m div 2 ^ (150 - e))
      in if e = 255 then None
         else Some (if f32_sign w then - mag else mag))"

text \<open>
  The casts \<^verbatim>\<open>(int)f\<close> and \<^verbatim>\<open>(int64_t)f\<close> where the language defines them: the
  truncated value when the target type holds it, and \<open>None\<close> otherwise.
\<close>

definition f32_to_int32 :: "32 word \<Rightarrow> int option" where
  "f32_to_int32 w =
     (case f32_trunc w of
        None \<Rightarrow> None
      | Some i \<Rightarrow> if - (2 ^ 31) \<le> i \<and> i < 2 ^ 31 then Some i else None)"

definition f32_to_int64 :: "32 word \<Rightarrow> int option" where
  "f32_to_int64 w =
     (case f32_trunc w of
        None \<Rightarrow> None
      | Some i \<Rightarrow> if - (2 ^ 63) \<le> i \<and> i < 2 ^ 63 then Some i else None)"

text \<open>
  The code casts without a test. For an operand that the
  target type does not hold (a value outside its range, an infinity, a NaN) the language
  leaves the result open and the cast gives what the conversion instruction of the machine
  returns: some value of the target type. That value is the parameter \<open>uc\<close> of the two
  casts below, so that what is proved of them holds whatever the machine returns.
\<close>

definition f32_cast_int :: "(32 word \<Rightarrow> 32 word) \<Rightarrow> 32 word \<Rightarrow> int" where
  "f32_cast_int uc w = (case f32_to_int32 w of Some i \<Rightarrow> i | None \<Rightarrow> sint (uc w))"

definition f32_cast_int64 :: "(32 word \<Rightarrow> 64 word) \<Rightarrow> 32 word \<Rightarrow> int" where
  "f32_cast_int64 uc w = (case f32_to_int64 w of Some i \<Rightarrow> i | None \<Rightarrow> sint (uc w))"

text \<open>
  One such machine: the instruction \<^verbatim>\<open>CVTTSS2SI\<close> of x86 returns the most negative integer
  for every operand that the target does not hold.
\<close>

definition cvtt_indefinite :: "32 word \<Rightarrow> 32 word" where
  "cvtt_indefinite w = 0x80000000"

definition cvtt_indefinite64 :: "32 word \<Rightarrow> 64 word" where
  "cvtt_indefinite64 w = 0x8000000000000000"

text \<open>The number of binary digits of a positive integer.\<close>

function bitlen_int :: "int \<Rightarrow> nat" where
  "bitlen_int n = (if n \<le> 0 then 0 else Suc (bitlen_int (n div 2)))"
  by pat_completeness auto
termination
  by (relation "measure nat") auto

declare bitlen_int.simps [simp del]

text \<open>
  The casts \<^verbatim>\<open>(float)i\<close> of an \<^verbatim>\<open>int\<close> or a \<^verbatim>\<open>long long\<close>: the nearest binary32
  value, ties to the even significand. \<open>f32_round a k\<close> is the significand of 24 bits for
  the positive number \<open>a\<close> whose highest bit is bit \<open>k\<close>.
\<close>

definition f32_round :: "int \<Rightarrow> nat \<Rightarrow> int" where
  "f32_round a k =
     (if k \<le> 23 then a * 2 ^ (23 - k)
      else
        let sh = k - 23;
            q = a div 2 ^ sh;
            r = a mod 2 ^ sh;
            h = 2 ^ (sh - 1)
        in if h < r \<or> (r = h \<and> odd q) then q + 1 else q)"

definition f32_of_int :: "int \<Rightarrow> 32 word" where
  "f32_of_int v =
     (if v = 0 then 0
      else
        let a = \<bar>v\<bar>;
            k = bitlen_int a - 1;
            q = f32_round a k;
            e = (if q = 2 ^ 24 then k + 1 else k);
            m = (if q = 2 ^ 24 then 2 ^ 23 else q)
        in word_of_int ((if v < 0 then 2 ^ 31 else 0) + (int e + 127) * 2 ^ 23 + (m - 2 ^ 23)))"

text \<open>A finite value that is a whole number: no bit of the significand lies below the point.\<close>

definition f32_is_integer :: "32 word \<Rightarrow> bool" where
  "f32_is_integer w \<longleftrightarrow>
     f32_exp w \<noteq> 255 \<and>
     (if f32_exp w = 0 then f32_man w = 0
      else 150 \<le> f32_exp w \<or> (2 ^ 23 + f32_man w) mod 2 ^ (150 - f32_exp w) = 0)"

text \<open>\<^verbatim>\<open>operator==\<close> on \<^verbatim>\<open>float\<close>: a NaN equals nothing, the two zeros are equal.\<close>

definition f32_eq :: "32 word \<Rightarrow> 32 word \<Rightarrow> bool" where
  "f32_eq a b \<longleftrightarrow>
     \<not> f32_is_nan a \<and> \<not> f32_is_nan b \<and>
     (a = b \<or> (uint a mod 2 ^ 31 = 0 \<and> uint b mod 2 ^ 31 = 0))"

section \<open>The lexer and the token decoder\<close>

text \<open>
  \<^verbatim>\<open>tokenize\<close>: the maximal runs of characters that are not white space. \<open>cur\<close> is
  the text between the source's \<^verbatim>\<open>prev\<close> and \<^verbatim>\<open>it\<close>.
\<close>

fun tokenize_from :: "string \<Rightarrow> string \<Rightarrow> string list" where
  "tokenize_from cur [] = (if cur = [] then [] else [cur])"
| "tokenize_from cur (c # cs) =
     (if isspace c then (if cur = [] then tokenize_from [] cs else cur # tokenize_from [] cs)
      else tokenize_from (cur @ [c]) cs)"

definition tokenize :: "string \<Rightarrow> string list" where
  "tokenize expr = tokenize_from [] expr"

text \<open>The immediates of \<^verbatim>\<open>ComparisonType\<close> and \<^verbatim>\<open>LoadConstType\<close>.\<close>

definition cmp_EQ :: "32 word" where "cmp_EQ = 0"
definition cmp_LT :: "32 word" where "cmp_LT = 1"
definition cmp_LE :: "32 word" where "cmp_LE = 2"
definition cmp_NEQ :: "32 word" where "cmp_NEQ = 4"
definition cmp_NLT :: "32 word" where "cmp_NLT = 5"
definition cmp_NLE :: "32 word" where "cmp_NLE = 6"

definition lc_N :: int where "lc_N = 0"
definition lc_X :: int where "lc_X = 1"
definition lc_Y :: int where "lc_Y = 2"
definition lc_Width :: int where "lc_Width = 3"
definition lc_Height :: int where "lc_Height = 4"
definition lc_LAST :: int where "lc_LAST = 5"

text \<open>The bits of \<^verbatim>\<open>std::numbers::pi_v<float>\<close>.\<close>

definition pi_f32 :: "32 word" where
  "pi_f32 = 0x40490FDB"

text \<open>The table \<^verbatim>\<open>simple\<close> of \<^verbatim>\<open>decodeToken\<close>.\<close>

definition simple :: "(string \<times> ExprOp) list" where
  "simple =
    [(''+'', mkOp ADD), (''-'', mkOp SUB), (''*'', mkOp MUL), (''/'', mkOp DIV),
     (''%'', mkOp MOD), (''sqrt'', mkOp SQRT), (''abs'', mkOp ABS),
     (''max'', mkOp MAX_OP), (''min'', mkOp MIN_OP),
     (''clip'', mkOp CLAMP), (''clamp'', mkOp CLAMP),
     (''<'', mkOpImm CMP cmp_LT), (''>'', mkOpImm CMP cmp_NLE), (''='', mkOpImm CMP cmp_EQ),
     (''>='', mkOpImm CMP cmp_NLT), (''<='', mkOpImm CMP cmp_LE),
     (''trunc'', mkOp TRUNC), (''round'', mkOp ROUND), (''floor'', mkOp FLOOR),
     (''and'', mkOp AND_OP), (''or'', mkOp OR_OP), (''xor'', mkOp XOR_OP), (''not'', mkOp NOT_OP),
     (''bitand'', mkOp BITAND), (''bitor'', mkOp BITOR), (''bitxor'', mkOp BITXOR),
     (''bitnot'', mkOp BITNOT),
     (''?'', mkOp TERNARY),
     (''exp'', mkOp EXP), (''log'', mkOp LOG), (''pow'', mkOp POW), (''**'', mkOp POW),
     (''sin'', mkOp SIN), (''cos'', mkOp COS),
     (''dup'', mkOpImm DUP 0), (''swap'', mkOpImm SWAP 1), (''drop'', mkOpImm DROP 1),
     (''pi'', mkOpImm CONSTANTF pi_f32),
     (''N'', mkOpImm CONST_LOAD (word_of_int lc_N)),
     (''X'', mkOpImm CONST_LOAD (word_of_int lc_X)),
     (''Y'', mkOpImm CONST_LOAD (word_of_int lc_Y)),
     (''width'', mkOpImm CONST_LOAD (word_of_int lc_Width)),
     (''height'', mkOpImm CONST_LOAD (word_of_int lc_Height))]"

text \<open>
  The group \<^verbatim>\<open>([a-z]|src[0-9]+)\<close> at the start of the four regular expressions: every
  way it matches a prefix of the token, in the order the matcher tries them, each with the
  rest of the token.
\<close>

definition clip_prefixes :: "string \<Rightarrow> (string \<times> string) list" where
  "clip_prefixes s =
     (case s of [] \<Rightarrow> [] | c # cs \<Rightarrow> if islower c then [([c], cs)] else []) @
     (if take 3 s = ''src''
      then map (\<lambda>k. (take (3 + k) s, drop (3 + k) s))
             (rev [1 ..< Suc (length (takeWhile isdigit (drop 3 s)))])
      else [])"

definition first_match :: "('a \<Rightarrow> 'b option) \<Rightarrow> 'a list \<Rightarrow> 'b option" where
  "first_match f xs = (case List.map_filter f xs of [] \<Rightarrow> None | r # _ \<Rightarrow> Some r)"

text \<open>\<^verbatim>\<open>-?[0-9]+\<close> at the start of a text that goes on with a character that is no digit.\<close>

definition signed_digits :: "string \<Rightarrow> (string \<times> string) option" where
  "signed_digits s =
     (let sg = (if take 1 s = ''-'' then 1 else 0);
          n = length (takeWhile isdigit (drop sg s))
      in if n = 0 then None else Some (take (sg + n) s, drop (sg + n) s))"

text \<open>\<^verbatim>\<open>clipNameRe\<close>, \<^verbatim>\<open>framePropRe\<close>, \<^verbatim>\<open>relpixelRe\<close> and \<^verbatim>\<open>abspixelRe\<close> with their groups.\<close>

definition match_clipNameRe :: "string \<Rightarrow> bool" where
  "match_clipNameRe token \<longleftrightarrow>
     first_match (\<lambda>(clip, rest). if rest = [] then Some clip else None) (clip_prefixes token) \<noteq> None"

definition match_framePropRe :: "string \<Rightarrow> (string \<times> string) option" where
  "match_framePropRe token =
     first_match (\<lambda>(clip, rest).
        case rest of
          [] \<Rightarrow> None
        | c # name \<Rightarrow>
            if c = CHR ''.'' \<and> list_all (\<lambda>d. d \<noteq> CHR ''['' \<and> d \<noteq> CHR '']'') name
            then Some (clip, name) else None)
      (clip_prefixes token)"

definition match_relpixelRe :: "string \<Rightarrow> (string \<times> string \<times> string \<times> string) option" where
  "match_relpixelRe token =
     first_match (\<lambda>(clip, rest).
        if take 1 rest \<noteq> ''['' then None
        else case signed_digits (drop 1 rest) of
          None \<Rightarrow> None
        | Some (sx, r1) \<Rightarrow>
            if take 1 r1 \<noteq> '','' then None
            else case signed_digits (drop 1 r1) of
              None \<Rightarrow> None
            | Some (sy, r2) \<Rightarrow>
                if take 1 r2 \<noteq> '']'' then None
                else if drop 1 r2 = [] \<or> drop 1 r2 = '':c'' \<or> drop 1 r2 = '':m''
                then Some (clip, sx, sy, drop 1 r2) else None)
      (clip_prefixes token)"

definition match_abspixelRe :: "string \<Rightarrow> string option" where
  "match_abspixelRe token =
     first_match (\<lambda>(clip, rest). if rest = ''[]'' then Some clip else None) (clip_prefixes token)"

datatype decode_error =
    invalid_clip_name
  | illegal_token
  | convert_partial
  | convert_failed
  | undefined_atoi

text \<open>The lambda \<^verbatim>\<open>extractClipId\<close>, for a name that the group above matched.\<close>

definition extractClipId :: "string \<Rightarrow> decode_error + int" where
  "extractClipId name =
     (if length name = 1
      then (if (of_char (hd name) :: nat) \<ge> of_char CHR ''x''
            then Inr (int (of_char (hd name)) - int (of_char CHR ''x''))
            else Inr (int (of_char (hd name)) - int (of_char CHR ''a'') + 3))
      else (case stoi (drop 3 name) of
              None \<Rightarrow> Inl invalid_clip_name
            | Some (idx, _) \<Rightarrow> Inr idx))"

text \<open>The two branches of \<^verbatim>\<open>decodeToken\<close> that read a count after a prefix.\<close>

definition decode_counted :: "string \<Rightarrow> nat \<Rightarrow> (int \<Rightarrow> ExprOp) \<Rightarrow> decode_error + ExprOp" where
  "decode_counted token prefix mk =
     (let (idx, count) = (case stoi (drop prefix token) of None \<Rightarrow> (- 1, 0) | Some r \<Rightarrow> r)
      in if idx < 0 \<or> prefix + count \<noteq> length token then Inl illegal_token
         else Inr (mk idx))"

text \<open>
  The last branch of \<^verbatim>\<open>decodeToken\<close>, the numeric literal. \<open>stof\<close> stands for
  \<^verbatim>\<open>std::stof(token, &pos)\<close>: the bits of the value and the characters consumed, or
  \<open>None\<close> when it throws.
\<close>

definition decode_number :: "(string \<Rightarrow> (32 word \<times> nat) option) \<Rightarrow> string \<Rightarrow> decode_error + ExprOp" where
  "decode_number stof token =
     (let len = length token;
          (l, pos) = (case stoll0 token of None \<Rightarrow> (0, 0) | Some r \<Rightarrow> r)
      in if pos = len then
           (if sint (word_of_int l :: 32 word) = l then Inr (mkOpImm CONSTANTI (word_of_int l))
            else if uint (word_of_int l :: 32 word) = l then Inr (mkOpImm CONSTANTI (word_of_int l))
            else Inr (mkOpImm CONSTANTF (f32_of_int l)))
         else
           (let (f, pos') = (case stof token of None \<Rightarrow> (0, 0) | Some r \<Rightarrow> r)
            in if pos' = len then Inr (mkOpImm CONSTANTF f)
               else if pos' > 0 then Inl convert_partial
               else Inl convert_failed))"

text \<open>
  The branches of \<^verbatim>\<open>decodeToken\<close> before the numeric literal, in the order of the
  source: \<open>None\<close> when none of them takes the token.
\<close>

definition decode_named :: "string \<Rightarrow> bool \<Rightarrow> (decode_error + ExprOp) option" where
  "decode_named token extended =
     (case map_of simple token of
        Some op \<Rightarrow> Some (Inr op)
      | None \<Rightarrow>
        if match_clipNameRe token then
          Some (case extractClipId token of
                  Inl e \<Rightarrow> Inl e
                | Inr i \<Rightarrow> Inr (mkOpImm MEM_LOAD (word_of_int i)))
        else if length token \<ge> 2 \<and> (last token = CHR ''@'' \<or> last token = CHR ''!'') then
          Some (Inr (mkExprOp (if last token = CHR ''@'' then VAR_LOAD else VAR_STORE)
                       (word_of_int (- 1)) (butlast token) 0 0 Unspecified))
        else if take 3 token = ''dup'' \<or> take 4 token = ''swap'' \<or>
                take 4 token = ''drop'' \<or> take 4 token = ''sort'' then
          Some (decode_counted token (if token ! 1 = CHR ''u'' then 3 else 4)
                  (\<lambda>idx. mkOpImm
                     (if token ! 1 = CHR ''u'' then DUP
                      else if token ! 1 = CHR ''w'' then SWAP
                      else if token ! 1 = CHR ''r'' then DROP
                      else SORT) (word_of_int idx)))
        else if extended \<and> (take 6 token = ''argmin'' \<or> take 6 token = ''argmax'' \<or>
                             take 7 token = ''argsort'') then
          Some (decode_counted token (if token ! 3 = CHR ''s'' then 7 else 6)
                  (\<lambda>idx. mkOpImm
                     (if token ! 3 = CHR ''s'' then ARGSORT
                      else if token ! 4 = CHR ''i'' then ARGMIN
                      else ARGMAX) (word_of_int idx)))
        else case match_framePropRe token of
          Some (clip, name) \<Rightarrow>
            Some (case extractClipId clip of
                    Inl e \<Rightarrow> Inl e
                  | Inr i \<Rightarrow> Inr (mkExprOp CONST_LOAD (word_of_int (lc_LAST + i)) name 0 0 Unspecified))
        | None \<Rightarrow>
          (case match_relpixelRe token of
             Some (clip, sx, sy, flag) \<Rightarrow>
               Some (case extractClipId clip of
                       Inl e \<Rightarrow> Inl e
                     | Inr i \<Rightarrow>
                        (case (atoi sx, atoi sy) of
                           (Some x, Some y) \<Rightarrow>
                             Inr (mkExprOp MEM_LOAD (word_of_int i) [] x y
                                    (if flag = [] then Unspecified
                                     else if flag ! 1 = CHR ''m'' then Mirrored else Clamped))
                         | _ \<Rightarrow> Inl undefined_atoi))
           | None \<Rightarrow>
             (case match_abspixelRe token of
                Some clip \<Rightarrow>
                  Some (case extractClipId clip of
                          Inl e \<Rightarrow> Inl e
                        | Inr i \<Rightarrow> Inr (mkOpImm MEM_LOAD_VAR (word_of_int i)))
              | None \<Rightarrow> None)))"

text \<open>\<^verbatim>\<open>ExprOp decodeToken(const std::string &token, bool extended = false)\<close>.\<close>

definition decodeToken :: "(string \<Rightarrow> (32 word \<times> nat) option) \<Rightarrow> string \<Rightarrow> bool \<Rightarrow> decode_error + ExprOp" where
  "decodeToken stof token extended =
     (case decode_named token extended of
        Some r \<Rightarrow> r
      | None \<Rightarrow> decode_number stof token)"

section \<open>The sorting network\<close>

text \<open>
  \<^verbatim>\<open>1 << s\<close> on a 32-bit \<^verbatim>\<open>int\<close>: undefined behaviour (\<open>None\<close>) for a negative
  count and for a count of 32 or more; a count of 31 gives \<^verbatim>\<open>INT_MIN\<close>.
\<close>

definition shl1 :: "int \<Rightarrow> int option" where
  "shl1 s =
     (if 0 \<le> s \<and> s < 31 then Some (2 ^ nat s)
      else if s = 31 then Some (- (2 ^ 31))
      else None)"

text \<open>\<^verbatim>\<open>int t = 0; while (n > (1<<t)) t++;\<close>\<close>

function sortnet_t :: "int \<Rightarrow> int \<Rightarrow> int option" where
  "sortnet_t n t =
     (case shl1 t of
        None \<Rightarrow> None
      | Some v \<Rightarrow> if n > v then sortnet_t n (t + 1) else Some t)"
  by pat_completeness auto
termination
  by (relation "measure (\<lambda>(n, t). nat (32 - t))") (auto simp: shl1_def split: if_splits)

declare sortnet_t.simps [simp del]

text \<open>\<^verbatim>\<open>for (int i = 0; i < n - d; i++) if ((i & p) == r) sn.emplace_back(i, i+d);\<close>\<close>

function sortnet_for :: "int \<Rightarrow> int \<Rightarrow> int \<Rightarrow> int \<Rightarrow> int \<Rightarrow> (int \<times> int) list \<Rightarrow> (int \<times> int) list" where
  "sortnet_for n p r d i sn =
     (if i < n - d
      then sortnet_for n p r d (i + 1) (if i AND p = r then sn @ [(i, i + d)] else sn)
      else sn)"
  by pat_completeness auto
termination
  by (relation "measure (\<lambda>(n, p, r, d, i, sn). nat (n - d - i))") auto

declare sortnet_for.simps [simp del]

text \<open>
  \<^verbatim>\<open>while (d > 0) { for ...; d = q - p; q >>= 1; r = p; }\<close>. Taken alone the loop need
  not end (with \<open>p < 0\<close> and \<open>q = 0\<close> it does not), so it is a partial function and its
  result is \<open>None\<close> when it runs forever.
\<close>

partial_function (option) sortnet_while_d ::
    "int \<Rightarrow> int \<Rightarrow> int \<Rightarrow> int \<Rightarrow> int \<Rightarrow> (int \<times> int) list \<Rightarrow> (int \<times> int) list option" where
  "sortnet_while_d n p q r d sn =
     (if d > 0 then sortnet_while_d n p (q div 2) p (q - p) (sortnet_for n p r d 0 sn)
      else Some sn)"

declare sortnet_while_d.simps [code]

text \<open>
  \<^verbatim>\<open>while (p > 0) { int q = 1 << (t - 1), r = 0, d = p; while (d > 0) ...; p >>= 1; }\<close>,
  with \<open>q0\<close> the value of \<^verbatim>\<open>1 << (t - 1)\<close>.
\<close>

function sortnet_while_p :: "int \<Rightarrow> int \<Rightarrow> int \<Rightarrow> (int \<times> int) list \<Rightarrow> (int \<times> int) list option" where
  "sortnet_while_p n q0 p sn =
     (if p > 0
      then (case sortnet_while_d n p q0 0 p sn of
              None \<Rightarrow> None
            | Some sn' \<Rightarrow> sortnet_while_p n q0 (p div 2) sn')
      else Some sn)"
  by pat_completeness auto
termination
  by (relation "measure (\<lambda>(n, q0, p, sn). nat p)") auto

declare sortnet_while_p.simps [simp del]

text \<open>
  \<^verbatim>\<open>buildSortNet(int n)\<close>, without the table that remembers the networks already built.
  \<open>None\<close> is undefined behaviour of a shift: \<open>n \<le> 1\<close> gives \<open>t = 0\<close> and the shift
  \<^verbatim>\<open>1 << -1\<close>.
\<close>

definition buildSortNet :: "int \<Rightarrow> (int \<times> int) list option" where
  "buildSortNet n =
     (case sortnet_t n 0 of
        None \<Rightarrow> None
      | Some t \<Rightarrow>
         (case shl1 (t - 1) of
            None \<Rightarrow> None
          | Some p \<Rightarrow> sortnet_while_p n p p []))"

subsection \<open>The schedule as the specification states it\<close>

text \<open>
  The specification builds the network by
  \<^verbatim>\<open>t = ceil(log2(n)); p = 2^(t-1); while p > 0: q = 2^(t-1); r = 0; d = p; while d > 0:
  for i in 0..n-d: if (i & p) == r: emit (i, i+d); d = q - p; q >>= 1; r = p; p >>= 1\<close>.
  The definitions below follow these words on natural numbers; the range \<^verbatim>\<open>0..n-d\<close>
  excludes its upper end. For \<open>n < 2\<close> the words give \<open>t = 0\<close> and no power \<^verbatim>\<open>2^(t-1)\<close>.
\<close>

definition spec_t :: "nat \<Rightarrow> nat" where
  "spec_t n = nat \<lceil>log 2 (real n)\<rceil>"

definition spec_emit :: "nat \<Rightarrow> nat \<Rightarrow> nat \<Rightarrow> nat \<Rightarrow> (nat \<times> nat) list" where
  "spec_emit n p r d = map (\<lambda>i. (i, i + d)) (filter (\<lambda>i. i AND p = r) [0 ..< n - d])"

function spec_while_d :: "nat \<Rightarrow> nat \<Rightarrow> nat \<Rightarrow> nat \<Rightarrow> nat \<Rightarrow> (nat \<times> nat) list" where
  "spec_while_d n p q r d =
     (if d > 0 then spec_emit n p r d @ spec_while_d n p (q div 2) p (q - p) else [])"
  by pat_completeness auto
termination
  by (relation "measure (\<lambda>(n, p, q, r, d). if d > 0 then q + 1 else 0)") auto

declare spec_while_d.simps [simp del]

function spec_while_p :: "nat \<Rightarrow> nat \<Rightarrow> nat \<Rightarrow> (nat \<times> nat) list" where
  "spec_while_p n t p =
     (if p > 0 then spec_while_d n p (2 ^ (t - 1)) 0 p @ spec_while_p n t (p div 2) else [])"
  by pat_completeness auto
termination
  by (relation "measure (\<lambda>(n, t, p). p)") auto

declare spec_while_p.simps [simp del]

definition spec_sortnet :: "nat \<Rightarrow> (nat \<times> nat) list" where
  "spec_sortnet n = spec_while_p n (spec_t n) (2 ^ (spec_t n - 1))"

section \<open>The code generator\<close>

text \<open>The part of \<^verbatim>\<open>VSFormat\<close> that the compiler reads.\<close>

datatype SampleType = stInteger | stFloat

record VSFormat =
  sampleType :: SampleType
  bitsPerSample :: nat
  bytesPerSample :: nat

text \<open>
  \<^verbatim>\<open>Compiler::Context\<close>: the decoded operations, the output format, the formats of the
  input clips (the array \<^verbatim>\<open>vi\<close> of \<open>numInputs\<close> entries), the option mask and the
  default boundary mode.
\<close>

record Context =
  ctx_ops :: "ExprOp list"
  ctx_vo :: VSFormat
  ctx_vi :: "VSFormat list"
  numInputs :: int
  optMask :: int
  mirror :: bool

text \<open>The loop of the constructor of \<^verbatim>\<open>Context\<close>: decode, then fill in the boundary mode.\<close>

fun decode_all :: "(string \<Rightarrow> (32 word \<times> nat) option) \<Rightarrow> bool \<Rightarrow> string list \<Rightarrow> decode_error + ExprOp list" where
  "decode_all stof m [] = Inr []"
| "decode_all stof m (tok # toks) =
     (case decodeToken stof tok False of
        Inl e \<Rightarrow> Inl e
      | Inr op \<Rightarrow>
         (case decode_all stof m toks of
            Inl e \<Rightarrow> Inl e
          | Inr os \<Rightarrow>
              Inr ((if bc op = Unspecified
                    then op\<lparr>bc := (if m then Mirrored else Clamped)\<rparr> else op) # os)))"

definition Context_init ::
    "(string \<Rightarrow> (32 word \<times> nat) option) \<Rightarrow> string \<Rightarrow> VSFormat \<Rightarrow> VSFormat list \<Rightarrow> int \<Rightarrow> int \<Rightarrow> int
      \<Rightarrow> decode_error + Context" where
  "Context_init stof expr fo fi n opt mir =
     (case decode_all stof (mir \<noteq> 0) (tokenize expr) of
        Inl e \<Rightarrow> Inl e
      | Inr os \<Rightarrow>
          Inr \<lparr>ctx_ops = os, ctx_vo = fo, ctx_vi = fi, numInputs = n, optMask = opt,
               mirror = (mir \<noteq> 0)\<rparr>)"

text \<open>\<^verbatim>\<open>bool forceFloat() const { return !(optMask & flagUseInteger); }\<close>\<close>

definition forceFloat :: "Context \<Rightarrow> bool" where
  "forceFloat ctx \<longleftrightarrow> optMask ctx AND 1 = 0"

subsection \<open>Values of the compile-time stack\<close>

text \<open>
  The vector operations that the compiler emits, as terms: \<open>rr\<close> is the operand tree of an
  SSA value. \<open>Load\<close> is the vector that \<open>MEM_LOAD\<close> reads from a clip at an offset under
  a boundary mode, \<open>Gather\<close> the one that \<open>MEM_LOAD_VAR\<close> reads at the two coordinate
  vectors, \<open>LoadConst\<close> one of \<open>N\<close>, \<open>X\<close>, \<open>Y\<close>, \<open>width\<close>, \<open>height\<close>, and \<open>Prop\<close> an entry
  of the array \<^verbatim>\<open>consts\<close>.
\<close>

datatype prim =
    P_FloatV | P_RoundInt | P_FP16To32
  | P_Add | P_Sub | P_Mul | P_Div | P_Mod | P_Sqrt0 | P_Abs | P_Max | P_Min
  | P_Trunc | P_Round | P_Floor
  | P_Cmp "32 word" | P_CmpGT0 | P_CmpLE0
  | P_And | P_Or | P_Xor | P_Not | P_And1
  | P_Exp | P_Log | P_Sin | P_Cos | P_Pow | P_BuiltinPowOrPow
  | P_Blend

datatype rr =
    IConst "32 word"
  | FConst "32 word"
  | Load int int int BoundaryCondition
  | Gather int rr rr
  | LoadConst int
  | Prop int
  | App prim "rr list"

text \<open>
  \<^verbatim>\<open>class Value\<close>: a variant of an integer vector and a float vector, and the flag
  \<^verbatim>\<open>constant\<close>.
\<close>

record Value =
  isFloat :: bool
  isConst :: bool
  node :: rr

definition Value_int_const :: "32 word \<Rightarrow> Value" where
  "Value_int_const x = \<lparr>isFloat = False, isConst = True, node = IConst x\<rparr>"

definition Value_float_const :: "32 word \<Rightarrow> Value" where
  "Value_float_const x = \<lparr>isFloat = True, isConst = True, node = FConst x\<rparr>"

definition Value_IntV :: "rr \<Rightarrow> Value" where
  "Value_IntV i = \<lparr>isFloat = False, isConst = False, node = i\<rparr>"

definition Value_FloatV :: "rr \<Rightarrow> Value" where
  "Value_FloatV f = \<lparr>isFloat = True, isConst = False, node = f\<rparr>"

text \<open>\<^verbatim>\<open>ensureFloat\<close> and \<^verbatim>\<open>ensureInt\<close>.\<close>

definition ensureFloat :: "Value \<Rightarrow> rr" where
  "ensureFloat v = (if isFloat v then node v else App P_FloatV [node v])"

definition ensureInt :: "Value \<Rightarrow> rr" where
  "ensureInt v = (if isFloat v then App P_RoundInt [node v] else node v)"

datatype compile_error =
    undefined_clip
  | insufficient_values
  | empty_expression
  | unconsumed_values nat
  | uninitialized_variable
  | bad_variant_access
  | out_of_range_at
  | out_of_bounds_read
  | undefined_shift
  | unsupported_operator

text \<open>
  \<^verbatim>\<open>Value::Min\<close> and \<^verbatim>\<open>Value::Max\<close>. When one of the two is a float vector both are
  read with \<^verbatim>\<open>f()\<close>, that is \<^verbatim>\<open>std::get<FloatV>\<close>, which throws
  \<^verbatim>\<open>std::bad_variant_access\<close> on the one that holds an integer vector.
\<close>

definition Value_minmax :: "prim \<Rightarrow> Value \<Rightarrow> Value \<Rightarrow> compile_error + Value" where
  "Value_minmax f a rhs =
     (if isFloat a \<or> isFloat rhs
      then (if isFloat a \<and> isFloat rhs then Inr (Value_FloatV (App f [node a, node rhs]))
            else Inl bad_variant_access)
      else Inr (Value_IntV (App f [node a, node rhs])))"

definition Value_Min :: "Value \<Rightarrow> Value \<Rightarrow> compile_error + Value" where
  "Value_Min a rhs = Value_minmax P_Min a rhs"

definition Value_Max :: "Value \<Rightarrow> Value \<Rightarrow> compile_error + Value" where
  "Value_Max a rhs = Value_minmax P_Max a rhs"

subsection \<open>One iteration: \<^verbatim>\<open>Compiler::buildOneIter\<close>\<close>

text \<open>
  The table \<^verbatim>\<open>numOperands\<close>. It ends at \<open>DROP\<close>; the three operators of Select have
  no entry.
\<close>

definition numOperands :: "ExprOpType \<Rightarrow> nat option" where
  "numOperands t =
     (if t \<in> {ARGMIN, ARGMAX, ARGSORT} then None
      else if t \<in> {CLAMP, TERNARY} then Some 3
      else if t \<in> {MEM_LOAD_VAR, ADD, SUB, MUL, DIV, MOD, MAX_OP, MIN_OP, CMP, AND_OP, OR_OP,
                     XOR_OP, BITAND, BITOR, BITXOR, POW} then Some 2
      else if t \<in> {VAR_STORE, SQRT, ABS, TRUNC, ROUND, FLOOR, NOT_OP, BITNOT, EXP, LOG, SIN,
                     COS} then Some 1
      else Some 0)"

text \<open>
  The format of an input clip, \<^verbatim>\<open>ctx.vi[i]->format\<close>, read together with
  \<^verbatim>\<open>state.wptrs[i + 1]\<close>: both arrays are indexed without a test, so an index outside
  \<open>0 \<le> i < numInputs\<close> is a read beyond the array, here \<open>None\<close>.
\<close>

definition clip_format :: "Context \<Rightarrow> int \<Rightarrow> VSFormat option" where
  "clip_format ctx i =
     (if 0 \<le> i \<and> i < numInputs ctx \<and> nat i < length (ctx_vi ctx)
      then Some (ctx_vi ctx ! nat i) else None)"

text \<open>The macros of the source. The stack is the vector of the source: its top is the last element.\<close>

definition BINARYOP :: "prim \<Rightarrow> bool \<Rightarrow> Value list \<Rightarrow> Value list" where
  "BINARYOP f ff st =
     (let r = last st; l = last (butlast st)
      in butlast (butlast st) @
         [if isFloat l \<and> isFloat r then Value_FloatV (App f [node l, node r])
          else if isFloat l then Value_FloatV (App f [node l, App P_FloatV [node r]])
          else if isFloat r then Value_FloatV (App f [App P_FloatV [node l], node r])
          else if ff then Value_FloatV (App f [App P_FloatV [node l], App P_FloatV [node r]])
          else Value_IntV (App f [node l, node r])])"

definition UNARYOP :: "prim \<Rightarrow> bool \<Rightarrow> Value list \<Rightarrow> Value list" where
  "UNARYOP f ff st =
     (let x = last st
      in butlast st @
         [if isFloat x then Value_FloatV (App f [node x])
          else if ff then Value_FloatV (App f [App P_FloatV [node x]])
          else Value_IntV (App f [node x])])"

definition UNARYOPF :: "prim \<Rightarrow> Value list \<Rightarrow> Value list" where
  "UNARYOPF f st = butlast st @ [Value_FloatV (App f [ensureFloat (last st)])]"

definition LOGICOP :: "prim \<Rightarrow> Value list \<Rightarrow> Value list" where
  "LOGICOP f st =
     (let r = last st; l = last (butlast st)
      in butlast (butlast st) @
         [Value_IntV (App P_And1 [App f [App P_CmpGT0 [node l], App P_CmpGT0 [node r]]])])"

definition BITWISEOP :: "prim \<Rightarrow> Value list \<Rightarrow> Value list" where
  "BITWISEOP f st =
     (let r = last st; l = last (butlast st)
      in butlast (butlast st) @ [Value_IntV (App f [ensureInt l, ensureInt r])])"

text \<open>The lambda \<^verbatim>\<open>at\<close> of the \<open>SORT\<close> case: \<^verbatim>\<open>stack.at(stack.size() - 1 - i)\<close>.\<close>

definition at_index :: "Value list \<Rightarrow> int \<Rightarrow> nat option" where
  "at_index st i = (if 0 \<le> i \<and> i < int (length st) then Some (length st - 1 - nat i) else None)"

text \<open>
  The body of the loop over the comparators: \<^verbatim>\<open>min = a.Min(b), max = a.Max(b); a = min,
  b = max;\<close> with \<open>a\<close> the slot \<^verbatim>\<open>cmp.first\<close> and \<open>b\<close> the slot \<^verbatim>\<open>cmp.second\<close>.
\<close>

definition sort_compare :: "Value list \<Rightarrow> int \<times> int \<Rightarrow> compile_error + Value list" where
  "sort_compare st cmp =
     (case (at_index st (fst cmp), at_index st (snd cmp)) of
        (Some ia, Some ib) \<Rightarrow>
          (case Value_Min (st ! ia) (st ! ib) of
             Inl e \<Rightarrow> Inl e
           | Inr mn \<Rightarrow>
              (case Value_Max (st ! ia) (st ! ib) of
                 Inl e \<Rightarrow> Inl e
               | Inr mx \<Rightarrow> Inr ((st[ia := mn])[ib := mx])))
      | _ \<Rightarrow> Inl out_of_range_at)"

fun sort_loop :: "Value list \<Rightarrow> (int \<times> int) list \<Rightarrow> compile_error + Value list" where
  "sort_loop st [] = Inr st"
| "sort_loop st (cmp # sn) =
     (case sort_compare st cmp of Inl e \<Rightarrow> Inl e | Inr st' \<Rightarrow> sort_loop st' sn)"

definition jit_SORT :: "32 word \<Rightarrow> Value list \<Rightarrow> compile_error + Value list" where
  "jit_SORT n st =
     (case buildSortNet (sint n) of
        None \<Rightarrow> Inl undefined_shift
      | Some sn \<Rightarrow> sort_loop st sn)"

text \<open>
  The case \<open>CONSTANTF\<close>: \<^verbatim>\<open>if (op.imm.f == (float)(int)op.imm.f) OUT((int)op.imm.f); else
  OUT(op.imm.f);\<close>
\<close>

definition jit_CONSTANTF :: "(32 word \<Rightarrow> 32 word) \<Rightarrow> 32 word \<Rightarrow> Value" where
  "jit_CONSTANTF uc f =
     (if f32_eq f (f32_of_int (f32_cast_int uc f))
      then Value_int_const (word_of_int (f32_cast_int uc f))
      else Value_float_const f)"

text \<open>The validity checks at the head of the loop body.\<close>

definition check_validity :: "Context \<Rightarrow> ExprOp \<Rightarrow> Value list \<Rightarrow> compile_error option" where
  "check_validity ctx op st =
     (if optype op = MEM_LOAD \<and> sint (imm op) \<ge> numInputs ctx then Some undefined_clip
      else if (optype op = DUP \<or> optype op = SWAP) \<and> unat (imm op) \<ge> length st
        then Some insufficient_values
      else if (optype op = DROP \<or> optype op = SORT) \<and> unat (imm op) > length st
        then Some insufficient_values
      else case numOperands (optype op) of
             None \<Rightarrow> Some unsupported_operator
           | Some k \<Rightarrow> if length st < k then Some insufficient_values else None)"

text \<open>
  The \<^verbatim>\<open>switch\<close> of the loop body, on the stack and the vector \<^verbatim>\<open>state.variables\<close>.
  The operands are there when it runs: \<open>check_validity\<close> comes first.
\<close>

fun jit_case ::
    "ExprOpType \<Rightarrow> (32 word \<Rightarrow> 32 word) \<Rightarrow> Context \<Rightarrow> ExprOp \<Rightarrow> Value list \<times> Value list \<Rightarrow> compile_error + Value list \<times> Value list" where
  "jit_case DUP uc ctx op (st, vars) = Inr (st @ [st ! (length st - 1 - (unat (imm op)))], vars)"
| "jit_case SWAP uc ctx op (st, vars) =
     Inr ((st[length st - 1 := st ! (length st - 1 - (unat (imm op)))])
            [length st - 1 - (unat (imm op)) := st ! (length st - 1)], vars)"
| "jit_case DROP uc ctx op (st, vars) = Inr (take (length st - (unat (imm op))) st, vars)"
| "jit_case SORT uc ctx op (st, vars) = (case jit_SORT (imm op) st of Inl e \<Rightarrow> Inl e | Inr st' \<Rightarrow> Inr (st', vars))"
| "jit_case MEM_LOAD uc ctx op (st, vars) =
     (case clip_format ctx (sint (imm op)) of
        None \<Rightarrow> Inl out_of_bounds_read
      | Some format \<Rightarrow>
          if sampleType format = stInteger
          then Inr (st @ [if forceFloat ctx
                          then Value_FloatV (App P_FloatV [Load (sint (imm op)) (dx op) (dy op) (bc op)])
                          else Value_IntV (Load (sint (imm op)) (dx op) (dy op) (bc op))], vars)
          else Inr (st @ [Value_FloatV
                            (if bytesPerSample format = 2
                             then App P_FP16To32 [Load (sint (imm op)) (dx op) (dy op) (bc op)]
                             else Load (sint (imm op)) (dx op) (dy op) (bc op))], vars))"
| "jit_case CONSTANTI uc ctx op (st, vars) = Inr (st @ [Value_int_const (imm op)], vars)"
| "jit_case CONSTANTF uc ctx op (st, vars) =
     Inr (st @ [jit_CONSTANTF uc (imm op)], vars)"
| "jit_case CONST_LOAD uc ctx op (st, vars) =
     Inr (st @ [if (sint (imm op)) \<in> {lc_N, lc_X, lc_Y, lc_Width, lc_Height}
                then Value_IntV (LoadConst (sint (imm op)))
                else Value_FloatV (Prop ((sint (imm op)) + (1 - lc_LAST)))], vars)"
| "jit_case MEM_LOAD_VAR uc ctx op (st, vars) =
     (let absy = last st; absx = last (butlast st); st' = butlast (butlast st) in
      case clip_format ctx (sint (imm op)) of
        None \<Rightarrow> Inl out_of_bounds_read
      | Some format \<Rightarrow>
          if sampleType format = stInteger
          then Inr (st' @ [if forceFloat ctx
                           then Value_FloatV (App P_FloatV [Gather (sint (imm op)) (ensureInt absx) (ensureInt absy)])
                           else Value_IntV (Gather (sint (imm op)) (ensureInt absx) (ensureInt absy))], vars)
          else Inr (st' @ [Value_FloatV
                             (if bytesPerSample format = 2
                              then App P_FP16To32 [Gather (sint (imm op)) (ensureInt absx) (ensureInt absy)]
                              else Gather (sint (imm op)) (ensureInt absx) (ensureInt absy))], vars))"
| "jit_case VAR_LOAD uc ctx op (st, vars) =
     (if 0 \<le> (sint (imm op)) \<and> nat (sint (imm op)) < length vars then Inr (st @ [vars ! nat (sint (imm op))], vars)
      else Inl out_of_bounds_read)"
| "jit_case VAR_STORE uc ctx op (st, vars) =
     (if 0 \<le> (sint (imm op)) \<and> nat (sint (imm op)) < length vars then Inr (butlast st, vars[nat (sint (imm op)) := last st])
      else Inl out_of_bounds_read)"
| "jit_case ADD uc ctx op (st, vars) = Inr (BINARYOP P_Add False st, vars)"
| "jit_case SUB uc ctx op (st, vars) = Inr (BINARYOP P_Sub False st, vars)"
| "jit_case MUL uc ctx op (st, vars) = Inr (BINARYOP P_Mul False st, vars)"
| "jit_case DIV uc ctx op (st, vars) = Inr (BINARYOP P_Div True st, vars)"
| "jit_case MOD uc ctx op (st, vars) = Inr (BINARYOP P_Mod True st, vars)"
| "jit_case SQRT uc ctx op (st, vars) = Inr (UNARYOPF P_Sqrt0 st, vars)"
| "jit_case ABS uc ctx op (st, vars) = Inr (UNARYOP P_Abs (forceFloat ctx) st, vars)"
| "jit_case MAX_OP uc ctx op (st, vars) = Inr (BINARYOP P_Max (forceFloat ctx) st, vars)"
| "jit_case MIN_OP uc ctx op (st, vars) = Inr (BINARYOP P_Min (forceFloat ctx) st, vars)"
| "jit_case CLAMP uc ctx op (st, vars) =
     (let mx = last st; mn = last (butlast st); x = last (butlast (butlast st));
          st' = butlast (butlast (butlast st)) in
      if isFloat x \<or> isFloat mn \<or> isFloat mx \<or> forceFloat ctx
      then Inr (st' @ [Value_FloatV
                (App P_Max [App P_Min [ensureFloat x, ensureFloat mx], ensureFloat mn])], vars)
      else Inr (st' @ [Value_IntV (App P_Max [App P_Min [node x, node mx], node mn])], vars))"
| "jit_case CMP uc ctx op (st, vars) =
     (let r = last st; l = last (butlast st); st' = butlast (butlast st) in
      if isFloat l \<or> isFloat r
      then Inr (st' @ [Value_IntV
                (App P_And1 [App (P_Cmp (imm op)) [ensureFloat l, ensureFloat r]])], vars)
      else Inr (st' @ [Value_IntV (App P_And1 [App (P_Cmp (imm op)) [node l, node r]])], vars))"
| "jit_case AND_OP uc ctx op (st, vars) = Inr (LOGICOP P_And st, vars)"
| "jit_case OR_OP uc ctx op (st, vars) = Inr (LOGICOP P_Or st, vars)"
| "jit_case XOR_OP uc ctx op (st, vars) = Inr (LOGICOP P_Xor st, vars)"
| "jit_case NOT_OP uc ctx op (st, vars) = Inr (butlast st @ [Value_IntV (App P_And1 [App P_CmpLE0 [node (last st)]])], vars)"
| "jit_case BITAND uc ctx op (st, vars) = Inr (BITWISEOP P_And st, vars)"
| "jit_case BITOR uc ctx op (st, vars) = Inr (BITWISEOP P_Or st, vars)"
| "jit_case BITXOR uc ctx op (st, vars) = Inr (BITWISEOP P_Xor st, vars)"
| "jit_case BITNOT uc ctx op (st, vars) = Inr (butlast st @ [Value_IntV (App P_Not [ensureInt (last st)])], vars)"
| "jit_case TRUNC uc ctx op (st, vars) = Inr (UNARYOPF P_Trunc st, vars)"
| "jit_case ROUND uc ctx op (st, vars) = Inr (UNARYOPF P_Round st, vars)"
| "jit_case FLOOR uc ctx op (st, vars) = Inr (UNARYOPF P_Floor st, vars)"
| "jit_case EXP uc ctx op (st, vars) = Inr (UNARYOPF P_Exp st, vars)"
| "jit_case LOG uc ctx op (st, vars) = Inr (UNARYOPF P_Log st, vars)"
| "jit_case POW uc ctx op (st, vars) =
     (let r = last st; l = last (butlast st); st' = butlast (butlast st) in
      if \<not> isFloat r
      then Inr (st' @ [Value_FloatV (App P_BuiltinPowOrPow [ensureFloat l, node r])], vars)
      else Inr (st' @ [Value_FloatV (App P_Pow [ensureFloat l, ensureFloat r])], vars))"
| "jit_case SIN uc ctx op (st, vars) = Inr (UNARYOPF P_Sin st, vars)"
| "jit_case COS uc ctx op (st, vars) = Inr (UNARYOPF P_Cos st, vars)"
| "jit_case TERNARY uc ctx op (st, vars) =
     (let f = last st; t = last (butlast st); c = last (butlast (butlast st));
          st' = butlast (butlast (butlast st)) in
      if isFloat t \<or> isFloat f
      then Inr (st' @ [Value_FloatV
                (App P_Blend [App P_CmpGT0 [node c], ensureFloat t, ensureFloat f])], vars)
      else Inr (st' @ [Value_IntV (App P_Blend [App P_CmpGT0 [node c], node t, node f])], vars))"
| "jit_case ARGMIN uc ctx op (st, vars) = Inl unsupported_operator"
| "jit_case ARGMAX uc ctx op (st, vars) = Inl unsupported_operator"
| "jit_case ARGSORT uc ctx op (st, vars) = Inl unsupported_operator"

definition jit_switch ::
    "(32 word \<Rightarrow> 32 word) \<Rightarrow> Context \<Rightarrow> ExprOp \<Rightarrow> Value list \<times> Value list \<Rightarrow> compile_error + Value list \<times> Value list" where
  "jit_switch uc ctx op sv = jit_case (optype op) uc ctx op sv"

definition jit_op ::
    "(32 word \<Rightarrow> 32 word) \<Rightarrow> Context \<Rightarrow> ExprOp \<Rightarrow> Value list \<times> Value list \<Rightarrow> compile_error + Value list \<times> Value list" where
  "jit_op uc ctx op sv =
     (case check_validity ctx op (fst sv) of
        Some e \<Rightarrow> Inl e
      | None \<Rightarrow> jit_switch uc ctx op sv)"

text \<open>The loop over \<^verbatim>\<open>ctx.ops\<close>.\<close>

fun jit_ops ::
    "(32 word \<Rightarrow> 32 word) \<Rightarrow> Context \<Rightarrow> ExprOp list \<Rightarrow> Value list \<times> Value list \<Rightarrow> compile_error + Value list \<times> Value list" where
  "jit_ops uc ctx [] sv = Inr sv"
| "jit_ops uc ctx (op # rest) sv =
     (case jit_op uc ctx op sv of Inl e \<Rightarrow> Inl e | Inr sv' \<Rightarrow> jit_ops uc ctx rest sv')"

text \<open>
  \<^verbatim>\<open>buildOneIter\<close> up to the value \<^verbatim>\<open>res\<close> that the rest of the function converts
  and stores to the output plane.
\<close>

definition buildOneIter :: "(32 word \<Rightarrow> 32 word) \<Rightarrow> Context \<Rightarrow> Value list \<Rightarrow> compile_error + Value" where
  "buildOneIter uc ctx vars =
     (case jit_ops uc ctx (ctx_ops ctx) ([], vars) of
        Inl e \<Rightarrow> Inl e
      | Inr (st, vars') \<Rightarrow>
          if st = [] then Inl empty_expression
          else if length st > 1 then Inl (unconsumed_values (length st))
          else Inr (last st))"

subsection \<open>\<^verbatim>\<open>Compiler::compile\<close>\<close>

fun position :: "'a \<Rightarrow> 'a list \<Rightarrow> nat" where
  "position x [] = 0"
| "position x (y # ys) = (if x = y then 0 else Suc (position x ys))"

text \<open>
  The first loop of \<^verbatim>\<open>compile\<close>: property accesses are numbered in the order of their
  first use; \<open>pa\<close> is the list \<^verbatim>\<open>propAccess\<close> built so far.
\<close>

fun prop_pass ::
    "int \<Rightarrow> ExprOp list \<Rightarrow> (int \<times> string) list \<Rightarrow> compile_error + ExprOp list \<times> (int \<times> string) list" where
  "prop_pass n [] pa = Inr ([], pa)"
| "prop_pass n (op # rest) pa =
     (if optype op \<noteq> CONST_LOAD \<or> sint (imm op) < lc_LAST
      then (case prop_pass n rest pa of
              Inl e \<Rightarrow> Inl e
            | Inr (os, pa') \<Rightarrow> Inr (op # os, pa'))
      else if sint (imm op) - lc_LAST \<ge> n then Inl undefined_clip
      else
        (let key = (sint (imm op) - lc_LAST, opname op);
             pa1 = (if key \<in> set pa then pa else pa @ [key])
         in case prop_pass n rest pa1 of
              Inl e \<Rightarrow> Inl e
            | Inr (os, pa') \<Rightarrow>
                Inr (op\<lparr>imm := word_of_int (lc_LAST + int (position key pa1))\<rparr> # os, pa')))"

text \<open>The second loop: variables are numbered in the order of their first store.\<close>

fun var_pass :: "ExprOp list \<Rightarrow> string list \<Rightarrow> compile_error + ExprOp list \<times> string list" where
  "var_pass [] vm = Inr ([], vm)"
| "var_pass (op # rest) vm =
     (if optype op \<noteq> VAR_LOAD \<and> optype op \<noteq> VAR_STORE
      then (case var_pass rest vm of
              Inl e \<Rightarrow> Inl e
            | Inr (os, vm') \<Rightarrow> Inr (op # os, vm'))
      else if opname op \<notin> set vm \<and> optype op = VAR_LOAD then Inl uninitialized_variable
      else
        (let vm1 = (if opname op \<in> set vm then vm else vm @ [opname op])
         in case var_pass rest vm1 of
              Inl e \<Rightarrow> Inl e
            | Inr (os, vm') \<Rightarrow>
                Inr (op\<lparr>imm := word_of_int (int (position (opname op) vm1))\<rparr> # os, vm')))"

text \<open>
  \<^verbatim>\<open>compile\<close> for an expression that is not in the cache: the two loops, the variables
  set to the integer vector 0, and one call of \<^verbatim>\<open>buildOneIter\<close> (\<^verbatim>\<open>UNROLL\<close> is 1). The
  result is the value stored and the list \<^verbatim>\<open>propAccess\<close>.
\<close>

definition compile :: "(32 word \<Rightarrow> 32 word) \<Rightarrow> Context \<Rightarrow> compile_error + Value \<times> (int \<times> string) list" where
  "compile uc ctx =
     (case prop_pass (numInputs ctx) (ctx_ops ctx) [] of
        Inl e \<Rightarrow> Inl e
      | Inr (os1, pa) \<Rightarrow>
         (case var_pass os1 [] of
            Inl e \<Rightarrow> Inl e
          | Inr (os2, vm) \<Rightarrow>
             (case buildOneIter uc (ctx\<lparr>ctx_ops := os2\<rparr>)
                     (replicate (length vm) (Value_IntV (IConst 0))) of
                Inl e \<Rightarrow> Inl e
              | Inr res \<Rightarrow> Inr (res, pa))))"

text \<open>
  The path of \<^verbatim>\<open>exprCreate\<close> for one plane: \<^verbatim>\<open>Compiler<LANES> comp(expr, ...);
  comp.compile()\<close>, with the errors of the decoder and of the compiler.
\<close>

datatype expr_error = DecodeError decode_error | CompileError compile_error

definition Compiler_compile ::
    "(32 word \<Rightarrow> 32 word) \<Rightarrow> (string \<Rightarrow> (32 word \<times> nat) option) \<Rightarrow> string \<Rightarrow> VSFormat \<Rightarrow> VSFormat list \<Rightarrow> int \<Rightarrow> int \<Rightarrow> int
      \<Rightarrow> expr_error + Value \<times> (int \<times> string) list" where
  "Compiler_compile uc stof expr fo fi n opt mir =
     (case Context_init stof expr fo fi n opt mir of
        Inl e \<Rightarrow> Inl (DecodeError e)
      | Inr ctx \<Rightarrow> (case compile uc ctx of Inl e \<Rightarrow> Inl (CompileError e) | Inr r \<Rightarrow> Inr r))"

text \<open>An 8-bit integer format.\<close>

definition gray8 :: VSFormat where
  "gray8 = \<lparr>sampleType = stInteger, bitsPerSample = 8, bytesPerSample = 1\<rparr>"

section \<open>The interpreter\<close>

text \<open>
  The stack of \<^verbatim>\<open>interpret\<close> holds \<^verbatim>\<open>float\<close>s, here their bits. Comparison, absolute
  value, \<^verbatim>\<open>std::max\<close> and \<^verbatim>\<open>std::min\<close> are defined on the bits; the arithmetic of
  the language and of \<^verbatim>\<open><cmath>\<close> is a parameter, the record \<open>fops\<close>, and so is what
  the cast \<^verbatim>\<open>(int)\<close> gives for a value that \<^verbatim>\<open>int\<close> does not hold (\<open>fto_int\<close>).
\<close>

record fops =
  fadd :: "32 word \<Rightarrow> 32 word \<Rightarrow> 32 word"
  fsub :: "32 word \<Rightarrow> 32 word \<Rightarrow> 32 word"
  fmul :: "32 word \<Rightarrow> 32 word \<Rightarrow> 32 word"
  fdiv :: "32 word \<Rightarrow> 32 word \<Rightarrow> 32 word"
  ffmod :: "32 word \<Rightarrow> 32 word \<Rightarrow> 32 word"
  fpow :: "32 word \<Rightarrow> 32 word \<Rightarrow> 32 word"
  fsqrt :: "32 word \<Rightarrow> 32 word"
  ftrunc :: "32 word \<Rightarrow> 32 word"
  fround :: "32 word \<Rightarrow> 32 word"
  ffloor :: "32 word \<Rightarrow> 32 word"
  fexp :: "32 word \<Rightarrow> 32 word"
  flog :: "32 word \<Rightarrow> 32 word"
  fsin :: "32 word \<Rightarrow> 32 word"
  fcos :: "32 word \<Rightarrow> 32 word"
  fto_int :: "32 word \<Rightarrow> 32 word"

text \<open>The order of the values that are no NaN: sign and magnitude as one integer.\<close>

definition f32_key :: "32 word \<Rightarrow> int" where
  "f32_key w = (if f32_sign w then - (uint w mod 2 ^ 31) else uint w mod 2 ^ 31)"

definition f32_lt :: "32 word \<Rightarrow> 32 word \<Rightarrow> bool" where
  "f32_lt a b \<longleftrightarrow> \<not> f32_is_nan a \<and> \<not> f32_is_nan b \<and> f32_key a < f32_key b"

definition f32_abs :: "32 word \<Rightarrow> 32 word" where
  "f32_abs w = word_of_int (uint w mod 2 ^ 31)"

definition std_max :: "32 word \<Rightarrow> 32 word \<Rightarrow> 32 word" where
  "std_max a b = (if f32_lt a b then b else a)"

definition std_min :: "32 word \<Rightarrow> 32 word \<Rightarrow> 32 word" where
  "std_min a b = (if f32_lt b a then b else a)"

definition f32_of_bool :: "bool \<Rightarrow> 32 word" where
  "f32_of_bool b = f32_of_int (if b then 1 else 0)"

text \<open>
  The errors of \<^verbatim>\<open>interpret\<close>: the \<^verbatim>\<open>std::runtime_error\<close>s that it throws or that a
  callback throws, and undefined behaviour (a read beside the stack, a sort of values that
  are not ordered).
\<close>

datatype interp_error =
    stack_underflow
  | used_before_assignment
  | empty_stack
  | unconsumed nat
  | callback_error
  | undefined_behaviour

type_synonym interp_state = "32 word list \<times> (string \<rightharpoonup> 32 word)"

text \<open>\<^verbatim>\<open>check_stack(nargs)\<close> with \<^verbatim>\<open>int nargs\<close>, and the three macro shapes.\<close>

definition check_stack :: "32 word list \<Rightarrow> int \<Rightarrow> bool" where
  "check_stack st nargs \<longleftrightarrow> \<not> int (length st) < nargs"

definition I_BINARY :: "(32 word \<Rightarrow> 32 word \<Rightarrow> 32 word) \<Rightarrow> interp_state \<Rightarrow> interp_error + interp_state" where
  "I_BINARY f sv =
     (if \<not> check_stack (fst sv) 2 then Inl stack_underflow
      else Inr (butlast (butlast (fst sv)) @ [f (last (butlast (fst sv))) (last (fst sv))], snd sv))"

definition I_UNARY :: "(32 word \<Rightarrow> 32 word) \<Rightarrow> interp_state \<Rightarrow> interp_error + interp_state" where
  "I_UNARY f sv =
     (if \<not> check_stack (fst sv) 1 then Inl stack_underflow
      else Inr (butlast (fst sv) @ [f (last (fst sv))], snd sv))"

text \<open>
  \<^verbatim>\<open>int li = (int)std::round(l); int ri = (int)std::round(r); OUT(li op ri);\<close> of the
  bitwise operators; the operation works on the 32 bits.
\<close>

definition I_BITWISE :: "fops \<Rightarrow> (32 word \<Rightarrow> 32 word \<Rightarrow> 32 word) \<Rightarrow> interp_state \<Rightarrow> interp_error + interp_state" where
  "I_BITWISE fl f sv =
     (if \<not> check_stack (fst sv) 2 then Inl stack_underflow
      else
        let li = f32_cast_int (fto_int fl) (fround fl (last (butlast (fst sv))));
            ri = f32_cast_int (fto_int fl) (fround fl (last (fst sv)))
        in Inr (butlast (butlast (fst sv)) @
                [f32_of_int (sint (f (word_of_int li) (word_of_int ri)))], snd sv))"

text \<open>
  \<^verbatim>\<open>std::sort\<close> and \<^verbatim>\<open>std::stable_sort\<close> with the comparator \<^verbatim>\<open>l > r\<close>: descending.
  The comparator is a strict weak order only without a NaN. Values that compare equal
  (the two zeros) keep their order here, which \<^verbatim>\<open>std::sort\<close> does not promise.
\<close>

definition sort_desc :: "32 word list \<Rightarrow> 32 word list" where
  "sort_desc xs = sort_key (\<lambda>w. - f32_key w) xs"

definition argsort_desc :: "32 word list \<Rightarrow> nat list" where
  "argsort_desc xs = sort_key (\<lambda>i. - f32_key (xs ! i)) [0 ..< length xs]"

text \<open>The loop of \<open>ARGMIN\<close> and \<open>ARGMAX\<close> over the values above the first one.\<close>

fun arg_loop :: "bool \<Rightarrow> 32 word list \<Rightarrow> nat \<Rightarrow> 32 word \<Rightarrow> nat \<Rightarrow> nat" where
  "arg_loop is_min [] i cur idx = idx"
| "arg_loop is_min (x # xs) i cur idx =
     (if (is_min \<and> f32_lt x cur) \<or> (\<not> is_min \<and> f32_lt cur x)
      then arg_loop is_min xs (Suc i) x i
      else arg_loop is_min xs (Suc i) cur idx)"

definition I_ARG :: "bool \<Rightarrow> 32 word \<Rightarrow> interp_state \<Rightarrow> interp_error + interp_state" where
  "I_ARG is_min n sv =
     (let st = fst sv in
      if \<not> check_stack st (sint n) then Inl stack_underflow
      else if unat n = 0 \<or> length st < unat n then Inl undefined_behaviour
      else
        (let top = drop (length st - unat n) st
         in Inr (take (length st - unat n) st @
                 [f32_of_int (int (arg_loop is_min (tl top) 1 (hd top) 0))], snd sv)))"

text \<open>
  The arguments of \<^verbatim>\<open>interpret\<close> besides the operations: the frame number, the size,
  the position and the two callbacks.
\<close>

record interp_env =
  env_N :: int
  env_width :: int
  env_height :: int
  env_Y :: int
  env_X :: int
  pixelGet :: "ExprOp \<Rightarrow> int \<Rightarrow> int \<Rightarrow> interp_error + 32 word"
  propGet :: "int \<Rightarrow> string \<Rightarrow> interp_error + 32 word"

definition push_result :: "interp_state \<Rightarrow> interp_error + 32 word \<Rightarrow> interp_error + interp_state" where
  "push_result sv r = (case r of Inl e \<Rightarrow> Inl e | Inr v \<Rightarrow> Inr (fst sv @ [v], snd sv))"

text \<open>The \<^verbatim>\<open>switch\<close> of \<^verbatim>\<open>interpret\<close>.\<close>

fun interp_case ::
    "ExprOpType \<Rightarrow> fops \<Rightarrow> interp_env \<Rightarrow> ExprOp \<Rightarrow> interp_state \<Rightarrow> interp_error + interp_state" where
  "interp_case DUP fl env op (st, vars) =
     (if \<not> check_stack st (sint (imm op)) then Inl stack_underflow
      else if unat (imm op) < length st
      then Inr (st @ [st ! (length st - 1 - unat (imm op))], vars)
      else Inl undefined_behaviour)"
| "interp_case SWAP fl env op (st, vars) =
     (if \<not> check_stack st (sint (imm op)) then Inl stack_underflow
      else if unat (imm op) < length st
      then Inr ((st[length st - 1 := st ! (length st - 1 - unat (imm op))])
                  [length st - 1 - unat (imm op) := st ! (length st - 1)], vars)
      else Inl undefined_behaviour)"
| "interp_case DROP fl env op (st, vars) =
     (if \<not> check_stack st (sint (imm op)) then Inl stack_underflow
      else if unat (imm op) \<le> length st then Inr (take (length st - unat (imm op)) st, vars)
      else Inl undefined_behaviour)"
| "interp_case MEM_LOAD fl env op (st, vars) =
     push_result (st, vars) (pixelGet env op (env_Y env) (env_X env))"
| "interp_case MEM_LOAD_VAR fl env op (st, vars) =
     push_result (st, vars) (pixelGet env op (env_Y env) (env_X env))"
| "interp_case CONSTANTI fl env op (st, vars) = Inr (st @ [f32_of_int (sint (imm op))], vars)"
| "interp_case CONSTANTF fl env op (st, vars) = Inr (st @ [imm op], vars)"
| "interp_case CONST_LOAD fl env op (st, vars) =
     (if sint (imm op) = lc_N then Inr (st @ [f32_of_int (env_N env)], vars)
      else if sint (imm op) = lc_Y then Inr (st @ [f32_of_int (env_Y env)], vars)
      else if sint (imm op) = lc_X then Inr (st @ [f32_of_int (env_X env)], vars)
      else if sint (imm op) = lc_Width then Inr (st @ [f32_of_int (env_width env)], vars)
      else if sint (imm op) = lc_Height then Inr (st @ [f32_of_int (env_height env)], vars)
      else push_result (st, vars) (propGet env (sint (imm op) - lc_LAST) (opname op)))"
| "interp_case VAR_LOAD fl env op (st, vars) =
     (case vars (opname op) of
        None \<Rightarrow> Inl used_before_assignment
      | Some v \<Rightarrow> Inr (st @ [v], vars))"
| "interp_case VAR_STORE fl env op (st, vars) =
     (if st = [] then Inl undefined_behaviour
      else Inr (butlast st, vars(opname op \<mapsto> last st)))"
| "interp_case ADD fl env op (st, vars) = I_BINARY (fadd fl) (st, vars)"
| "interp_case SUB fl env op (st, vars) = I_BINARY (fsub fl) (st, vars)"
| "interp_case MUL fl env op (st, vars) = I_BINARY (fmul fl) (st, vars)"
| "interp_case DIV fl env op (st, vars) = I_BINARY (fdiv fl) (st, vars)"
| "interp_case MOD fl env op (st, vars) = I_BINARY (ffmod fl) (st, vars)"
| "interp_case SQRT fl env op (st, vars) = I_UNARY (\<lambda>x. fsqrt fl (std_max x 0)) (st, vars)"
| "interp_case ABS fl env op (st, vars) = I_UNARY f32_abs (st, vars)"
| "interp_case MAX_OP fl env op (st, vars) = I_BINARY std_max (st, vars)"
| "interp_case MIN_OP fl env op (st, vars) = I_BINARY std_min (st, vars)"
| "interp_case CLAMP fl env op (st, vars) =
     (if \<not> check_stack st 3 then Inl stack_underflow
      else
        (let mx = last st; mn = last (butlast st); x = last (butlast (butlast st))
         in Inr (butlast (butlast (butlast st)) @ [std_max (std_min x mx) mn], vars)))"
| "interp_case CMP fl env op (st, vars) =
     (if \<not> check_stack st 2 then Inl stack_underflow
      else
        (let r = last st; l = last (butlast st); st' = butlast (butlast st)
         in if imm op = cmp_EQ then Inr (st' @ [f32_of_bool (f32_eq l r)], vars)
            else if imm op = cmp_LT then Inr (st' @ [f32_of_bool (f32_lt l r)], vars)
            else if imm op = cmp_LE then Inr (st' @ [f32_of_bool (f32_lt l r \<or> f32_eq l r)], vars)
            else if imm op = cmp_NEQ then Inr (st' @ [f32_of_bool (\<not> f32_eq l r)], vars)
            else if imm op = cmp_NLT then Inr (st' @ [f32_of_bool (f32_lt r l \<or> f32_eq l r)], vars)
            else if imm op = cmp_NLE then Inr (st' @ [f32_of_bool (f32_lt r l)], vars)
            else Inl undefined_behaviour))"
| "interp_case TRUNC fl env op (st, vars) = I_UNARY (ftrunc fl) (st, vars)"
| "interp_case ROUND fl env op (st, vars) = I_UNARY (fround fl) (st, vars)"
| "interp_case FLOOR fl env op (st, vars) = I_UNARY (ffloor fl) (st, vars)"
| "interp_case AND_OP fl env op (st, vars) =
     I_BINARY (\<lambda>l r. f32_of_bool (f32_lt 0 l \<and> f32_lt 0 r)) (st, vars)"
| "interp_case OR_OP fl env op (st, vars) =
     I_BINARY (\<lambda>l r. f32_of_bool (f32_lt 0 l \<or> f32_lt 0 r)) (st, vars)"
| "interp_case XOR_OP fl env op (st, vars) =
     I_BINARY (\<lambda>l r. f32_of_bool (f32_lt 0 l \<noteq> f32_lt 0 r)) (st, vars)"
| "interp_case NOT_OP fl env op (st, vars) =
     I_UNARY (\<lambda>x. f32_of_bool (f32_lt x 0 \<or> f32_eq x 0)) (st, vars)"
| "interp_case BITAND fl env op (st, vars) = I_BITWISE fl (\<lambda>a b. a AND b) (st, vars)"
| "interp_case BITOR fl env op (st, vars) = I_BITWISE fl (\<lambda>a b. a OR b) (st, vars)"
| "interp_case BITXOR fl env op (st, vars) = I_BITWISE fl (\<lambda>a b. a XOR b) (st, vars)"
| "interp_case BITNOT fl env op (st, vars) =
     (if \<not> check_stack st 1 then Inl stack_underflow
      else
        let xi = f32_cast_int (fto_int fl) (fround fl (last st))
        in Inr (butlast st @ [f32_of_int (sint (NOT (word_of_int xi :: 32 word)))], vars))"
| "interp_case EXP fl env op (st, vars) = I_UNARY (fexp fl) (st, vars)"
| "interp_case LOG fl env op (st, vars) = I_UNARY (flog fl) (st, vars)"
| "interp_case POW fl env op (st, vars) = I_BINARY (fpow fl) (st, vars)"
| "interp_case SIN fl env op (st, vars) = I_UNARY (fsin fl) (st, vars)"
| "interp_case COS fl env op (st, vars) = I_UNARY (fcos fl) (st, vars)"
| "interp_case TERNARY fl env op (st, vars) =
     (if \<not> check_stack st 3 then Inl stack_underflow
      else
        (let f = last st; t = last (butlast st); c = last (butlast (butlast st))
         in Inr (butlast (butlast (butlast st)) @ [if f32_lt 0 c then t else f], vars)))"
| "interp_case SORT fl env op (st, vars) =
     (if \<not> check_stack st (sint (imm op)) then Inl stack_underflow
      else if length st < unat (imm op) then Inl undefined_behaviour
      else if list_ex f32_is_nan (drop (length st - unat (imm op)) st) then Inl undefined_behaviour
      else Inr (take (length st - unat (imm op)) st @
                sort_desc (drop (length st - unat (imm op)) st), vars))"
| "interp_case ARGMIN fl env op (st, vars) = I_ARG True (imm op) (st, vars)"
| "interp_case ARGMAX fl env op (st, vars) = I_ARG False (imm op) (st, vars)"
| "interp_case ARGSORT fl env op (st, vars) =
     (if \<not> check_stack st (sint (imm op)) then Inl stack_underflow
      else if length st < unat (imm op) then Inl undefined_behaviour
      else if list_ex f32_is_nan (drop (length st - unat (imm op)) st) then Inl undefined_behaviour
      else Inr (take (length st - unat (imm op)) st @
                map (\<lambda>i. f32_of_int (int i)) (argsort_desc (drop (length st - unat (imm op)) st)),
                vars))"

fun interp_ops :: "fops \<Rightarrow> interp_env \<Rightarrow> ExprOp list \<Rightarrow> interp_state \<Rightarrow> interp_error + interp_state" where
  "interp_ops fl env [] sv = Inr sv"
| "interp_ops fl env (op # rest) sv =
     (case interp_case (optype op) fl env op sv of
        Inl e \<Rightarrow> Inl e
      | Inr sv' \<Rightarrow> interp_ops fl env rest sv')"

text \<open>
  The function \<^verbatim>\<open>interpret\<close> of the source, called without the debugging argument
  \<^verbatim>\<open>rstk\<close>; its name is a keyword of Isabelle, hence \<open>interpret_expr\<close>.
\<close>

definition interpret_expr :: "fops \<Rightarrow> interp_env \<Rightarrow> ExprOp list \<Rightarrow> interp_error + 32 word" where
  "interpret_expr fl env os =
     (case interp_ops fl env os ([], Map.empty) of
        Inl e \<Rightarrow> Inl e
      | Inr (st, vars) \<Rightarrow>
          if st = [] then Inl empty_stack
          else if length st > 1 then Inl (unconsumed (length st))
          else Inr (st ! 0))"

section \<open>The filters at frame time\<close>

subsection \<open>The property map of the host\<close>

text \<open>
  The frame properties belong to the host: a map from a key to an array of integers, of
  doubles or of byte strings, or to a node, a frame or a function. The functions below
  are the ones of the host's interface (version 3) that the filters call, with its error
  codes; \<open>'d\<close> is the type \<^verbatim>\<open>double\<close>.
\<close>

datatype 'd VSPropValue =
    ptInt "int list"
  | ptFloat "'d list"
  | ptData "string list"
  | ptNode
  | ptFrame
  | ptFunction

type_synonym 'd VSMap = "string \<rightharpoonup> 'd VSPropValue"

definition peUnset :: int where "peUnset = 1"
definition peType :: int where "peType = 2"
definition peIndex :: int where "peIndex = 4"

definition propGetInt :: "'d VSMap \<Rightarrow> string \<Rightarrow> nat \<Rightarrow> int \<times> int" where
  "propGetInt m key idx =
     (case m key of
        None \<Rightarrow> (0, peUnset)
      | Some (ptInt xs) \<Rightarrow> if idx < length xs then (xs ! idx, 0) else (0, peIndex)
      | Some _ \<Rightarrow> (0, peType))"

definition propGetFloat :: "'d VSMap \<Rightarrow> string \<Rightarrow> nat \<Rightarrow> 'd option \<times> int" where
  "propGetFloat m key idx =
     (case m key of
        None \<Rightarrow> (None, peUnset)
      | Some (ptFloat xs) \<Rightarrow> if idx < length xs then (Some (xs ! idx), 0) else (None, peIndex)
      | Some _ \<Rightarrow> (None, peType))"

definition propGetData :: "'d VSMap \<Rightarrow> string \<Rightarrow> nat \<Rightarrow> string option \<times> int" where
  "propGetData m key idx =
     (case m key of
        None \<Rightarrow> (None, peUnset)
      | Some (ptData xs) \<Rightarrow> if idx < length xs then (Some (xs ! idx), 0) else (None, peIndex)
      | Some _ \<Rightarrow> (None, peType))"

definition propDeleteKey :: "'d VSMap \<Rightarrow> string \<Rightarrow> 'd VSMap" where
  "propDeleteKey m key = m(key := None)"

text \<open>\<^verbatim>\<open>propSetInt\<close> and \<^verbatim>\<open>propSetFloat\<close> with \<^verbatim>\<open>paAppend\<close>: a key of another type is left as it is.\<close>

definition propSetInt :: "'d VSMap \<Rightarrow> string \<Rightarrow> int \<Rightarrow> 'd VSMap" where
  "propSetInt m key v =
     (case m key of
        None \<Rightarrow> m(key \<mapsto> ptInt [v])
      | Some (ptInt xs) \<Rightarrow> m(key \<mapsto> ptInt (xs @ [v]))
      | Some _ \<Rightarrow> m)"

definition propSetFloat :: "'d VSMap \<Rightarrow> string \<Rightarrow> 'd \<Rightarrow> 'd VSMap" where
  "propSetFloat m key v =
     (case m key of
        None \<Rightarrow> m(key \<mapsto> ptFloat [v])
      | Some (ptFloat xs) \<Rightarrow> m(key \<mapsto> ptFloat (xs @ [v]))
      | Some _ \<Rightarrow> m)"

subsection \<open>Reading a property\<close>

text \<open>
  The three filters read a property with the same statements:
  \<^verbatim>\<open>float val = propGetInt(m, name, 0, &err); if (err == peType) val = propGetFloat(...);
  if (err == peType) { auto d = propGetData(...); if (d) val = d[0]; }\<close>. The result here
  is \<open>val\<close> and \<open>err\<close> after them. \<open>d2f\<close> is the cast of a \<^verbatim>\<open>double\<close> and \<open>c2f\<close> the
  cast of a \<^verbatim>\<open>char\<close> to \<^verbatim>\<open>float\<close>; a byte string ends with a NUL, which is its first
  byte when it is empty.
\<close>

definition read_frame_prop ::
    "('d \<Rightarrow> 32 word) \<Rightarrow> (char \<Rightarrow> 32 word) \<Rightarrow> 'd VSMap \<Rightarrow> string \<Rightarrow> 32 word \<times> int" where
  "read_frame_prop d2f c2f m name =
     (let (i, e0) = propGetInt m name 0;
          val0 = f32_of_int i;
          (val1, e1) =
            (if e0 = peType
             then (case propGetFloat m name 0 of
                     (None, e) \<Rightarrow> (0, e)
                   | (Some x, e) \<Rightarrow> (d2f x, e))
             else (val0, e0));
          (val2, e2) =
            (if e1 = peType
             then (case propGetData m name 0 of
                     (None, e) \<Rightarrow> (val1, e)
                   | (Some bytes, e) \<Rightarrow> (c2f (case bytes of [] \<Rightarrow> CHR 0x00 | c # _ \<Rightarrow> c), e))
             else (val1, e1))
      in (val2, e2))"

text \<open>The bits of \<^verbatim>\<open>std::nanf("")\<close>.\<close>

definition f32_nan :: "32 word" where
  "f32_nan = 0x7FC00000"

text \<open>In \<^verbatim>\<open>exprGetFrame\<close>: \<^verbatim>\<open>if (err != 0) val = std::nanf("");\<close>\<close>

definition exprGetFrame_prop :: "('d \<Rightarrow> 32 word) \<Rightarrow> (char \<Rightarrow> 32 word) \<Rightarrow> 'd VSMap \<Rightarrow> string \<Rightarrow> 32 word" where
  "exprGetFrame_prop d2f c2f m name =
     (let (val, err) = read_frame_prop d2f c2f m name in if err \<noteq> 0 then f32_nan else val)"

text \<open>The lambda \<^verbatim>\<open>propGet\<close> of \<^verbatim>\<open>selectGetFrame\<close>: \<^verbatim>\<open>if (err != 0) val = 0.0f;\<close>\<close>

definition selectGetFrame_propGet :: "('d \<Rightarrow> 32 word) \<Rightarrow> (char \<Rightarrow> 32 word) \<Rightarrow> 'd VSMap \<Rightarrow> string \<Rightarrow> 32 word" where
  "selectGetFrame_propGet d2f c2f m name =
     (let (val, err) = read_frame_prop d2f c2f m name in if err \<noteq> 0 then 0 else val)"

text \<open>The lambda \<^verbatim>\<open>propGet\<close> of \<^verbatim>\<open>propExprGetFrame\<close>, with the same statements.\<close>

definition propExprGetFrame_propGet :: "('d \<Rightarrow> 32 word) \<Rightarrow> (char \<Rightarrow> 32 word) \<Rightarrow> 'd VSMap \<Rightarrow> string \<Rightarrow> 32 word" where
  "propExprGetFrame_propGet d2f c2f m name =
     (let (val, err) = read_frame_prop d2f c2f m name in if err \<noteq> 0 then 0 else val)"

subsection \<open>Evaluation in \<^verbatim>\<open>selectGetFrame\<close> and \<^verbatim>\<open>propExprGetFrame\<close>\<close>

text \<open>
  The arguments that the two functions give to \<^verbatim>\<open>interpret\<close> at frame \<open>n\<close>: the
  position is \<open>-1\<close>, a pixel is \<open>0.0\<close>, and a property is read from the frame of the clip
  with the index of the access (\<^verbatim>\<open>props[idx]\<close>, a vector indexed without a test).
\<close>

definition select_frame_env ::
    "('d \<Rightarrow> 32 word) \<Rightarrow> (char \<Rightarrow> 32 word) \<Rightarrow> 'd VSMap list \<Rightarrow> nat \<Rightarrow> int \<Rightarrow> int \<Rightarrow> interp_env" where
  "select_frame_env d2f c2f props n w h =
     \<lparr>env_N = int n, env_width = w, env_height = h, env_Y = - 1, env_X = - 1,
      pixelGet = (\<lambda>op y x. Inr 0),
      propGet = (\<lambda>idx name.
        if 0 \<le> idx \<and> nat idx < length props
        then Inr (selectGetFrame_propGet d2f c2f (props ! nat idx) name)
        else Inl undefined_behaviour)\<rparr>"

definition propExpr_frame_env ::
    "('d \<Rightarrow> 32 word) \<Rightarrow> (char \<Rightarrow> 32 word) \<Rightarrow> 'd VSMap list \<Rightarrow> nat \<Rightarrow> int \<Rightarrow> int \<Rightarrow> interp_env" where
  "propExpr_frame_env d2f c2f props n w h =
     \<lparr>env_N = int n, env_width = w, env_height = h, env_Y = - 1, env_X = - 1,
      pixelGet = (\<lambda>op y x. Inr 0),
      propGet = (\<lambda>idx name.
        if 0 \<le> idx \<and> nat idx < length props
        then Inr (propExprGetFrame_propGet d2f c2f (props ! nat idx) name)
        else Inl undefined_behaviour)\<rparr>"

text \<open>
  \<^verbatim>\<open>try { x = interpret(...); } catch (std::runtime_error &e) { x = 0.0f; }\<close>: \<open>None\<close> is
  undefined behaviour, which no handler catches.
\<close>

definition eval_or_zero :: "fops \<Rightarrow> interp_env \<Rightarrow> ExprOp list \<Rightarrow> 32 word option" where
  "eval_or_zero fl env os =
     (case interpret_expr fl env os of
        Inr x \<Rightarrow> Some x
      | Inl e \<Rightarrow> if e = undefined_behaviour then None else Some 0)"

subsection \<open>\<^verbatim>\<open>propExprGetFrame\<close>\<close>

text \<open>
  \<^verbatim>\<open>pair.second[n % pair.second.size()]\<close>: the expression of frame \<open>n\<close>; an empty array
  divides by zero.
\<close>

definition frame_ops :: "ExprOp list list \<Rightarrow> nat \<Rightarrow> ExprOp list option" where
  "frame_ops opss n = (if opss = [] then None else Some (opss ! (n mod length opss)))"

text \<open>The first loop: the value of every key.\<close>

fun frame_vals ::
    "fops \<Rightarrow> interp_env \<Rightarrow> (string \<times> ExprOp list list) list \<Rightarrow> nat \<Rightarrow> 32 word list option" where
  "frame_vals fl env [] n = Some []"
| "frame_vals fl env (pair # rest) n =
     (case frame_ops (snd pair) n of
        None \<Rightarrow> None
      | Some os \<Rightarrow>
         (case eval_or_zero fl env os of
            None \<Rightarrow> None
          | Some x \<Rightarrow>
             (case frame_vals fl env rest n of
                None \<Rightarrow> None
              | Some xs \<Rightarrow> Some (x # xs))))"

text \<open>
  The body of the second loop: \<^verbatim>\<open>propDeleteKey(map, name); if (ops.size() > 0) { if (v ==
  (float)(int64_t)v) propSetInt(map, name, (int64_t)v, paAppend); else propSetFloat(map,
  name, v, paAppend); }\<close>. \<open>f2d\<close> is the conversion of the \<^verbatim>\<open>float\<close> to the
  \<^verbatim>\<open>double\<close> that \<^verbatim>\<open>propSetFloat\<close> takes.
\<close>

definition write_prop ::
    "(32 word \<Rightarrow> 64 word) \<Rightarrow> (32 word \<Rightarrow> 'd) \<Rightarrow> 'd VSMap \<Rightarrow> string \<Rightarrow> ExprOp list \<Rightarrow> 32 word
      \<Rightarrow> 'd VSMap" where
  "write_prop uc f2d m name os v =
     (if os = [] then propDeleteKey m name
      else if f32_eq v (f32_of_int (f32_cast_int64 uc v))
        then propSetInt (propDeleteKey m name) name (f32_cast_int64 uc v)
        else propSetFloat (propDeleteKey m name) name (f2d v))"

fun write_props ::
    "(32 word \<Rightarrow> 64 word) \<Rightarrow> (32 word \<Rightarrow> 'd) \<Rightarrow> 'd VSMap \<Rightarrow> (string \<times> ExprOp list list) list
      \<Rightarrow> 32 word list \<Rightarrow> nat \<Rightarrow> 'd VSMap option" where
  "write_props uc f2d m [] vals n = Some m"
| "write_props uc f2d m (pair # rest) vals n =
     (case (frame_ops (snd pair) n, vals) of
        (Some os, v # vs) \<Rightarrow> write_props uc f2d (write_prop uc f2d m (fst pair) os v) rest vs n
      | _ \<Rightarrow> None)"

text \<open>
  The properties of the frame that \<^verbatim>\<open>propExprGetFrame\<close> returns for frame \<open>n\<close>: those
  of the frame of the first clip, rewritten by the two loops. \<open>dops\<close> is \<^verbatim>\<open>d->ops\<close> and
  \<open>props\<close> holds the properties of the frames of the clips.
\<close>

definition propExprGetFrame ::
    "(32 word \<Rightarrow> 64 word) \<Rightarrow> fops \<Rightarrow> ('d \<Rightarrow> 32 word) \<Rightarrow> (char \<Rightarrow> 32 word) \<Rightarrow> (32 word \<Rightarrow> 'd) \<Rightarrow>
     (string \<times> ExprOp list list) list \<Rightarrow> 'd VSMap list \<Rightarrow> int \<Rightarrow> int \<Rightarrow> nat \<Rightarrow> 'd VSMap option" where
  "propExprGetFrame uc fl d2f c2f f2d dops props w h n =
     (case props of
        [] \<Rightarrow> None
      | m0 # _ \<Rightarrow>
         (case frame_vals fl (propExpr_frame_env d2f c2f props n w h) dops n of
            None \<Rightarrow> None
          | Some vals \<Rightarrow> write_props uc f2d m0 dops vals n))"

section \<open>Equality of operations\<close>

text \<open>
  Claim C8. Two operations are equal exactly when their kind, their raw 32-bit immediate
  (read as the unsigned member of the union), their name and their two offsets agree; the
  boundary condition takes no part, so changing only \<open>bc\<close> gives an equal operation.
\<close>

theorem op_eq_fields:
  "(op_eq a b \<longleftrightarrow>
      optype a = optype b \<and> unat (imm a) = unat (imm b) \<and> opname a = opname b \<and>
      dx a = dx b \<and> dy a = dy b) \<and>
   op_eq a (a\<lparr>bc := c\<rparr>) \<and> op_eq (a\<lparr>bc := c\<rparr>) a"
  by (simp add: op_eq_def word_unat_eq_iff)

section \<open>Decoding of tokens\<close>

text \<open>
  Claim C10. The tokens \<^verbatim>\<open>dup\<close>, \<^verbatim>\<open>swap\<close> and \<^verbatim>\<open>drop\<close> decode to \<open>DUP\<close> with
  count 0, \<open>SWAP\<close> with count 1 and \<open>DROP\<close> with count 1, and these are the operations
  that \<^verbatim>\<open>dup0\<close>, \<^verbatim>\<open>swap1\<close> and \<^verbatim>\<open>drop1\<close> decode to, in both modes of the decoder.
\<close>

theorem decode_unsuffixed_stack_tokens:
  "decodeToken stof ''dup'' extended = Inr (mkOpImm DUP 0) \<and>
   decodeToken stof ''swap'' extended = Inr (mkOpImm SWAP 1) \<and>
   decodeToken stof ''drop'' extended = Inr (mkOpImm DROP 1) \<and>
   decodeToken stof ''dup0'' extended = decodeToken stof ''dup'' extended \<and>
   decodeToken stof ''swap1'' extended = decodeToken stof ''swap'' extended \<and>
   decodeToken stof ''drop1'' extended = decodeToken stof ''drop'' extended"
  by code_simp

lemma sint_fits: "- (2 ^ 31) \<le> v \<Longrightarrow> v < 2 ^ 31 \<Longrightarrow> sint (word_of_int v :: 32 word) = v"
  by (simp add: signed_of_int signed_take_bit_int_eq_self)

lemma uint_fits: "0 \<le> v \<Longrightarrow> v < 2 ^ 32 \<Longrightarrow> uint (word_of_int v :: 32 word) = v"
  by (simp add: unsigned_of_int take_bit_int_eq_self)

lemma sint_not_fits: "2 ^ 31 \<le> v \<Longrightarrow> sint (word_of_int v :: 32 word) \<noteq> v"
  using sint_lt [of "word_of_int v :: 32 word"] by auto

text \<open>
  Claim C7. Let no earlier branch of the decoder take the (non-empty) token. When the
  integer parse consumes the whole token and the value \<open>v\<close> fits \<^verbatim>\<open>int32_t\<close>, the token is
  \<open>CONSTANTI\<close> with the immediate whose signed reading is \<open>v\<close>; when \<open>v\<close> fits only
  \<^verbatim>\<open>uint32_t\<close>, it is \<open>CONSTANTI\<close> with the immediate whose unsigned reading is \<open>v\<close>. When
  the integer parse does not consume the whole token, the float parse decides: the whole
  token gives \<open>CONSTANTF\<close>, anything less is an error.
\<close>

theorem decode_numeric_literal:
  assumes "decode_named token extended = None" and "token \<noteq> []"
  shows
   "(\<forall>v. stoll0 token = Some (v, length token) \<and> - (2 ^ 31) \<le> v \<and> v < 2 ^ 31 \<longrightarrow>
        decodeToken stof token extended = Inr (mkOpImm CONSTANTI (word_of_int v)) \<and>
        sint (word_of_int v :: 32 word) = v) \<and>
    (\<forall>v. stoll0 token = Some (v, length token) \<and> 2 ^ 31 \<le> v \<and> v < 2 ^ 32 \<longrightarrow>
        decodeToken stof token extended = Inr (mkOpImm CONSTANTI (word_of_int v)) \<and>
        uint (word_of_int v :: 32 word) = v) \<and>
    ((\<forall>v. stoll0 token \<noteq> Some (v, length token)) \<longrightarrow>
        decodeToken stof token extended =
          (case stof token of
             None \<Rightarrow> Inl convert_failed
           | Some (f, pos) \<Rightarrow>
               if pos = length token then Inr (mkOpImm CONSTANTF f)
               else if pos > 0 then Inl convert_partial else Inl convert_failed))"
proof (intro conjI allI impI)
  fix v
  assume h: "stoll0 token = Some (v, length token) \<and> - (2 ^ 31) \<le> v \<and> v < 2 ^ 31"
  then have s: "sint (word_of_int v :: 32 word) = v"
    by (simp add: sint_fits)
  show "decodeToken stof token extended = Inr (mkOpImm CONSTANTI (word_of_int v))"
    using assms(1) h s by (simp add: decodeToken_def decode_number_def)
  show "sint (word_of_int v :: 32 word) = v" by (rule s)
next
  fix v
  assume h: "stoll0 token = Some (v, length token) \<and> 2 ^ 31 \<le> v \<and> v < 2 ^ 32"
  then have u: "uint (word_of_int v :: 32 word) = v"
    by (simp add: uint_fits)
  from h have n: "sint (word_of_int v :: 32 word) \<noteq> v"
    by (simp add: sint_not_fits)
  show "decodeToken stof token extended = Inr (mkOpImm CONSTANTI (word_of_int v))"
    using assms(1) h u n by (simp add: decodeToken_def decode_number_def)
  show "uint (word_of_int v :: 32 word) = v" by (rule u)
next
  assume h: "\<forall>v. stoll0 token \<noteq> Some (v, length token)"
  have p: "snd (case stoll0 token of None \<Rightarrow> (0, 0) | Some r \<Rightarrow> r) \<noteq> length token"
  proof (cases "stoll0 token")
    case None
    then show ?thesis using assms(2) by simp
  next
    case (Some r)
    then show ?thesis using h by (cases r) auto
  qed
  show "decodeToken stof token extended =
          (case stof token of
             None \<Rightarrow> Inl convert_failed
           | Some (f, pos) \<Rightarrow>
               if pos = length token then Inr (mkOpImm CONSTANTF f)
               else if pos > 0 then Inl convert_partial else Inl convert_failed)"
    using assms p
    by (auto simp add: decodeToken_def decode_number_def split: option.splits prod.splits)
qed

text \<open>
  What \<^verbatim>\<open>std::stof\<close> returns on two sample tokens: \<^verbatim>\<open>1.5\<close> is read whole, of
  \<^verbatim>\<open>1.5x\<close> only the first three characters.
\<close>

definition stof_sample :: "string \<Rightarrow> (32 word \<times> nat) option" where
  "stof_sample s =
     (if s = ''1.5'' \<or> s = ''1.5x'' then Some (0x3FC00000, 3) else None)"

lemma decode_named_samples:
  "decode_named ''42'' False = None" "decode_named ''4294967295'' False = None"
  "decode_named ''1.5'' False = None" "decode_named ''1.5x'' False = None"
  by code_simp+

lemma stoll0_samples:
  "stoll0 ''42'' = Some (42, 2)" "stoll0 ''4294967295'' = Some (4294967295, 10)"
  "stoll0 ''1.5'' = Some (1, 1)" "stoll0 ''1.5x'' = Some (1, 1)"
  by code_simp+

theorem decode_numeric_literal_witness:
  "decodeToken stof_sample ''42'' False = Inr (mkOpImm CONSTANTI 42) \<and>
   decodeToken stof_sample ''4294967295'' False = Inr (mkOpImm CONSTANTI 0xFFFFFFFF) \<and>
   decodeToken stof_sample ''1.5'' False = Inr (mkOpImm CONSTANTF 0x3FC00000) \<and>
   decodeToken stof_sample ''1.5x'' False = Inl convert_partial"
  using decode_numeric_literal [of "''42''" False stof_sample]
    decode_numeric_literal [of "''4294967295''" False stof_sample]
    decode_numeric_literal [of "''1.5''" False stof_sample]
    decode_numeric_literal [of "''1.5x''" False stof_sample]
  by (simp add: decode_named_samples stoll0_samples stof_sample_def)

section \<open>Clip references\<close>

text \<open>
  A program that gets through the loop of \<^verbatim>\<open>buildOneIter\<close> has every \<open>MEM_LOAD\<close>
  below \<open>numInputs\<close>: the first validity check sees to it.
\<close>

lemma jit_ops_MEM_LOAD_below_numInputs:
  "jit_ops uc ctx os sv = Inr sv' \<Longrightarrow> op \<in> set os \<Longrightarrow> optype op = MEM_LOAD \<Longrightarrow>
     sint (imm op) < numInputs ctx"
proof (induction os arbitrary: sv)
  case Nil
  then show ?case by simp
next
  case (Cons o1 os)
  from Cons.prems(1) obtain sv1 where
    s1: "jit_op uc ctx o1 sv = Inr sv1" and s2: "jit_ops uc ctx os sv1 = Inr sv'"
    by (auto split: sum.splits)
  show ?case
  proof (cases "op = o1")
    case True
    with s1 Cons.prems(3) show ?thesis
      by (auto simp: jit_op_def check_validity_def split: option.splits if_splits)
  next
    case False
    with Cons.prems(2) have "op \<in> set os" by simp
    with Cons.IH [OF s2] Cons.prems(3) show ?thesis by simp
  qed
qed

text \<open>
  Claim C2. The check is missing for \<open>MEM_LOAD_VAR\<close>. With one input clip, the expression
  \<^verbatim>\<open>0 0 y[]\<close> (clip index 1) passes the validity checks, and the case \<open>MEM_LOAD_VAR\<close>
  reads \<^verbatim>\<open>ctx.vi[1]\<close> and \<^verbatim>\<open>state.wptrs[2]\<close> beyond their ends; the same index in the
  \<open>MEM_LOAD\<close> of the expression \<^verbatim>\<open>y\<close> is refused as an undefined clip.
\<close>

theorem mem_load_var_clip_unchecked:
  "Compiler_compile uc stof ''0 0 y[]'' fo [fi] 1 opt mir = Inl (CompileError out_of_bounds_read) \<and>
   Compiler_compile uc stof ''y'' fo [fi] 1 opt mir = Inl (CompileError undefined_clip)"
  by code_simp

section \<open>The lowering of \<open>SORT\<close>\<close>

text \<open>
  Claim C3. In the code generator \<open>SORT\<close> does not sort every stack. With one 8-bit
  integer clip and the default option mask, \<^verbatim>\<open>x\<close> is a float vector and \<^verbatim>\<open>1\<close> an
  integer constant; the comparator of \<^verbatim>\<open>sort2\<close> calls \<^verbatim>\<open>Value::Min\<close> on the two, which
  throws \<^verbatim>\<open>std::bad_variant_access\<close>, and no code is generated.
\<close>

theorem sort_mixed_types_throws:
  "Compiler_compile uc stof ''x 1 sort2 drop'' gray8 [gray8] 1 0 mir =
     Inl (CompileError bad_variant_access)"
  by code_simp

section \<open>Whole numbers in binary32\<close>

text \<open>
  A whole number of binary32 that an \<^verbatim>\<open>int\<close> holds survives the casts to \<^verbatim>\<open>int\<close> and
  back: \<^verbatim>\<open>f == (float)(int)f\<close>.
\<close>

lemma bitlen_int_pow: "2 ^ j \<le> a \<Longrightarrow> a < 2 ^ Suc j \<Longrightarrow> bitlen_int a = Suc j"
proof (induction j arbitrary: a)
  case 0
  then have "a = 1" by simp
  then show ?case by (simp add: bitlen_int.simps)
next
  case (Suc j)
  have "2 ^ j \<le> a div 2" using Suc.prems(1) by simp
  moreover have "a div 2 < 2 ^ Suc j" using Suc.prems(2) by simp
  ultimately have "bitlen_int (a div 2) = Suc j" by (rule Suc.IH)
  moreover have "(0::int) < 2 ^ Suc j" by simp
  then have "0 < a" using Suc.prems(1) by linarith
  ultimately show ?case by (subst bitlen_int.simps) simp
qed

lemma f32_of_int_exact:
  assumes "2 ^ k \<le> a" "a < 2 ^ Suc k" "f32_round a k = m" "m < 2 ^ 24"
  shows "f32_of_int (if s then - a else a) =
           word_of_int ((if s then 2 ^ 31 else 0) + (int k + 127) * 2 ^ 23 + (m - 2 ^ 23))"
proof -
  have pos: "0 < a" using assms(1) by (smt (verit) zero_less_power)
  have bl: "bitlen_int a - 1 = k" using bitlen_int_pow [OF assms(1,2)] by simp
  have "\<bar>if s then - a else a\<bar> = a" using pos by simp
  moreover have "(if s then - a else a) \<noteq> 0" using pos by simp
  moreover have "(if s then - a else a) < 0 \<longleftrightarrow> s" using pos by simp
  ultimately show ?thesis
    unfolding f32_of_int_def Let_def using bl assms(3,4) by simp
qed

lemma f32_round_scaled: "f32_round (m * 2 ^ j) (23 + j) = m"
proof (cases "j = 0")
  case True
  then show ?thesis by (simp add: f32_round_def)
next
  case False
  then have "(0::int) < 2 ^ (j - 1)" by simp
  then show ?thesis using False by (simp add: f32_round_def Let_def)
qed

lemma f32_round_divided:
  assumes "j \<le> 23" "m mod 2 ^ j = 0"
  shows "f32_round (m div 2 ^ j) (23 - j) = m"
proof -
  have "m div 2 ^ j * 2 ^ j = m" using assms(2) by (simp add: mod_0_imp_dvd)
  then show ?thesis using assms(1) by (simp add: f32_round_def)
qed


lemma split_u32:
  fixes u :: int
  assumes "0 \<le> u" "u < 4294967296"
  shows "u = (if 2147483648 \<le> u then 2147483648 else 0) + ((u div 8388608) mod 256) * 8388608 + u mod 8388608"
proof -
  have a: "u = (u div 8388608) * 8388608 + u mod 8388608" by simp
  have b: "u div 8388608 = ((u div 8388608) div 256) * 256 + (u div 8388608) mod 256" by simp
  have c: "(u div 8388608) div 256 = u div 2147483648"
    by (simp add: zdiv_zmult2_eq)
  have d: "u div 2147483648 = (if 2147483648 \<le> u then 1 else 0)"
    using assms by (auto simp: div_pos_pos_trivial) 
  show ?thesis using a b c d by (smt (verit))
qed

lemma f32_exp_int: "int (f32_exp w) = (uint w div 8388608) mod 256"
  unfolding f32_exp_def by simp

lemma f32_fields:
  "uint w = (if f32_sign w then 2 ^ 31 else 0) + int (f32_exp w) * 2 ^ 23 + f32_man w"
  "f32_exp w < 256" "0 \<le> f32_man w" "f32_man w < 2 ^ 23"
proof -
  have b: "0 \<le> uint w" "uint w < 4294967296"
    using uint_lt2p [of w] by simp_all
  show "uint w = (if f32_sign w then 2 ^ 31 else 0) + int (f32_exp w) * 2 ^ 23 + f32_man w"
    using split_u32 [OF b] unfolding f32_exp_int f32_sign_def f32_man_def
    by (cases "2147483648 \<le> uint w") simp_all
  have "int (f32_exp w) < 256" unfolding f32_exp_int by simp
  then show "f32_exp w < 256" by simp
  show "0 \<le> f32_man w" "f32_man w < 2 ^ 23" unfolding f32_man_def by simp_all
qed

lemma f32_eq_self: "f32_exp w \<noteq> 255 \<Longrightarrow> f32_eq w w"
  by (simp add: f32_eq_def f32_is_nan_def)

lemma f32_roundtrip:
  assumes "f32_is_integer w" "f32_trunc w = Some i"
  shows "f32_eq w (f32_of_int i)"
proof -
  define e where "e = f32_exp w"
  define m where "m = 2 ^ 23 + f32_man w"
  note fl = f32_fields [of w, folded e_def]
  have e255: "e \<noteq> 255" using assms(1) by (simp add: f32_is_integer_def e_def)
  have mb: "2 ^ 23 \<le> m" "m < 2 ^ 24" using fl(3,4) by (simp_all add: m_def)
  show ?thesis
  proof (cases "e = 0")
    case True
    then have e0: "f32_exp w = 0" by (simp add: e_def)
    have man0: "f32_man w = 0" using assms(1) by (simp add: f32_is_integer_def e0)
    have "f32_trunc w = Some 0" by (simp add: f32_trunc_def Let_def e0 man0)
    then have "i = 0" using assms(2) by simp
    moreover have "uint w mod 2 ^ 31 = 0" using fl(1) True man0 by simp
    moreover have "f32_exp (0 :: 32 word) = 0" by (simp add: f32_exp_def)
    ultimately show ?thesis
      by (simp add: f32_eq_def f32_is_nan_def f32_of_int_def e0)
  next
    case False
    have target: "word_of_int ((if f32_sign w then 2 ^ 31 else 0) + int e * 2 ^ 23 + (m - 2 ^ 23)) = w"
    proof -
      have "(if f32_sign w then 2 ^ 31 else 0) + int e * 2 ^ 23 + (m - 2 ^ 23) = uint w"
        using fl(1) by (simp add: m_def)
      then show ?thesis by (simp only: word_of_int_uint)
    qed
    have "f32_of_int i = w"
    proof (cases "150 \<le> e")
      case True
      define j where "j = e - 150"
      have ej: "e = 150 + j" using True by (simp add: j_def)
      have "f32_trunc w = Some (if f32_sign w then - (m * 2 ^ j) else m * 2 ^ j)"
        using False True e255 by (simp add: f32_trunc_def Let_def j_def m_def flip: e_def)
      then have i: "i = (if f32_sign w then - (m * 2 ^ j) else m * 2 ^ j)"
        using assms(2) by simp
      have "2 ^ 23 * 2 ^ j \<le> m * (2 ^ j :: int)" using mb(1) by (intro mult_right_mono) simp_all
      then have lo: "2 ^ (23 + j) \<le> m * 2 ^ j" by (simp add: power_add)
      have "m * (2 ^ j :: int) < 2 ^ 24 * 2 ^ j" using mb(2) by (intro mult_strict_right_mono) simp_all
      then have hi: "m * 2 ^ j < 2 ^ Suc (23 + j)" by (simp add: power_add)
      show ?thesis
        using f32_of_int_exact [OF lo hi f32_round_scaled mb(2), of "f32_sign w"] target
        by (simp add: i ej)
    next
      case c: False
      define j where "j = 150 - e"
      have ej: "e = 150 - j" "j \<le> 149" "1 \<le> j" using c False by (simp_all add: j_def)
      have md: "m mod 2 ^ j = 0"
        using assms(1) False c by (simp add: f32_is_integer_def j_def m_def flip: e_def)
      have j23: "j \<le> 23"
      proof (rule ccontr)
        assume "\<not> j \<le> 23"
        then have "24 \<le> j" by simp
        then have "(2::int) ^ 24 \<le> 2 ^ j" by (intro power_increasing) simp_all
        then have "m mod 2 ^ j = m" using mb by simp
        then show False using md mb(1) by simp
      qed
      define a where "a = m div 2 ^ j"
      have ma: "m = a * 2 ^ j" using md by (simp add: a_def mod_0_imp_dvd)
      have "f32_trunc w = Some (if f32_sign w then - a else a)"
        using False c e255 by (simp add: f32_trunc_def Let_def a_def j_def m_def flip: e_def)
      then have i: "i = (if f32_sign w then - a else a)"
        using assms(2) by simp
      have p: "(2::int) ^ 23 = 2 ^ (23 - j) * 2 ^ j" "(2::int) ^ 24 = 2 ^ Suc (23 - j) * 2 ^ j"
        using j23 by (simp_all flip: power_add power_Suc)
      have lo: "2 ^ (23 - j) \<le> a" using mb(1) unfolding ma p by simp
      have hi: "a < 2 ^ Suc (23 - j)" using mb(2) unfolding ma p by simp
      have r: "f32_round a (23 - j) = m" unfolding a_def by (rule f32_round_divided [OF j23 md])
      have "int (23 - j) + 127 = int e" using ej j23 by simp
      then show ?thesis
        using f32_of_int_exact [OF lo hi r mb(2), of "f32_sign w"] target by (simp add: i)
    qed
    then show ?thesis using e255 by (simp add: f32_eq_self e_def)
  qed
qed

lemma f32_integer_cast_eq:
  "f32_is_integer f \<Longrightarrow> f32_to_int32 f = Some i \<Longrightarrow> f32_eq f (f32_of_int i)"
  by (rule f32_roundtrip) (auto simp: f32_to_int32_def split: option.splits if_splits)

text \<open>
  The converse: the \<^verbatim>\<open>float\<close> of an integer is a whole number, so a value that is no
  whole number differs from the \<^verbatim>\<open>float\<close> of every integer.
\<close>

lemma divmod_compose:
  fixes k c M :: int
  assumes "0 \<le> M" "M < c"
  shows "(k * c + M) div c = k" "(k * c + M) mod c = M"
  using assms by (simp_all add: div_pos_pos_trivial mod_pos_pos_trivial)

lemma div_upper:
  fixes a :: int
  assumes "a < j * 2 ^ sh"
  shows "a div 2 ^ sh < j"
proof (rule ccontr)
  assume "\<not> a div 2 ^ sh < j"
  then have "j \<le> a div 2 ^ sh" by simp
  then have "j * 2 ^ sh \<le> (a div 2 ^ sh) * 2 ^ sh" by (intro mult_right_mono) simp_all
  also have "\<dots> \<le> a"
  proof -
    have "0 \<le> a mod 2 ^ sh" by simp
    then show ?thesis using div_mult_mod_eq [of a "2 ^ sh"] by linarith
  qed
  finally show False using assms by simp
qed

lemma f32_round_bounds:
  assumes "2 ^ k \<le> a" "a < 2 ^ Suc k"
  shows "2 ^ 23 \<le> f32_round a k" "f32_round a k \<le> 2 ^ 24"
proof -
  show "2 ^ 23 \<le> f32_round a k"
  proof (cases "k \<le> 23")
    case True
    have "(2::int) ^ 23 = 2 ^ k * 2 ^ (23 - k)" using True by (simp flip: power_add)
    also have "\<dots> \<le> a * 2 ^ (23 - k)" using assms(1) by (intro mult_right_mono) simp_all
    finally show ?thesis using True by (simp add: f32_round_def)
  next
    case False
    define sh where "sh = k - 23"
    have k: "k = 23 + sh" using False by (simp add: sh_def)
    have "(2::int) ^ 23 * 2 ^ sh \<le> a" using assms(1) by (simp add: k power_add)
    then have "2 ^ 23 \<le> a div 2 ^ sh"
      by (metis div_mult_self_is_m zdiv_mono1 zero_less_numeral zero_less_power  nonzero_mult_div_cancel_right power_not_zero zero_neq_numeral)
    then show ?thesis using False by (simp add: f32_round_def Let_def sh_def)
  qed
  show "f32_round a k \<le> 2 ^ 24"
  proof (cases "k \<le> 23")
    case True
    have "a * 2 ^ (23 - k) < 2 ^ Suc k * (2 ^ (23 - k) :: int)"
      using assms(2) by (intro mult_strict_right_mono) simp_all
    also have "\<dots> = 2 ^ 24" using True by (simp flip: power_add power_Suc)
    finally show ?thesis using True by (simp add: f32_round_def)
  next
    case False
    define sh where "sh = k - 23"
    have k: "k = 23 + sh" using False by (simp add: sh_def)
    have "a < 2 ^ 24 * (2 ^ sh :: int)" using assms(2) by (simp add: k power_add)
    then have "a div 2 ^ sh < 2 ^ 24"
      by (rule div_upper)
    then show ?thesis using False by (simp add: f32_round_def Let_def sh_def)
  qed
qed

lemma f32_compose:
  fixes E M :: int
  assumes "0 \<le> E" "E < 256" "0 \<le> M" "M < 2 ^ 23"
  shows "f32_exp (word_of_int ((if s then 2 ^ 31 else 0) + E * 2 ^ 23 + M) :: 32 word) = nat E"
    "f32_man (word_of_int ((if s then 2 ^ 31 else 0) + E * 2 ^ 23 + M) :: 32 word) = M"
    "f32_sign (word_of_int ((if s then 2 ^ 31 else 0) + E * 2 ^ 23 + M) :: 32 word) = s"
proof -
  define X where "X = (if s then 2 ^ 31 else 0) + E * 2 ^ 23 + M"
  have b: "0 \<le> E * 2 ^ 23 + M" "E * 2 ^ 23 + M < 2 ^ 31"
    using assms by auto
  have X: "0 \<le> X" "X < 2 ^ 32" using b by (auto simp: X_def)
  have u: "uint (word_of_int X :: 32 word) = X"
    using X by (simp add: unsigned_of_int take_bit_int_eq_self)
  have Xk: "X = ((if s then 256 else 0) + E) * 2 ^ 23 + M"
    by (simp add: X_def algebra_simps)
  have d: "X div 2 ^ 23 = (if s then 256 else 0) + E"
    unfolding Xk using assms(3,4) by (intro divmod_compose) simp_all
  have m: "X mod 2 ^ 23 = M"
    unfolding Xk using assms(3,4) by (intro divmod_compose) simp_all
  show "f32_exp (word_of_int ((if s then 2 ^ 31 else 0) + E * 2 ^ 23 + M) :: 32 word) = nat E"
    using u d assms(1,2) unfolding f32_exp_def X_def [symmetric] by auto
  show "f32_man (word_of_int ((if s then 2 ^ 31 else 0) + E * 2 ^ 23 + M) :: 32 word) = M"
    using u m unfolding f32_man_def X_def [symmetric] by simp
  show "f32_sign (word_of_int ((if s then 2 ^ 31 else 0) + E * 2 ^ 23 + M) :: 32 word) = s"
    using u b unfolding f32_sign_def X_def [symmetric] by (auto simp: X_def)
qed

lemma bitlen_ex:
  fixes a :: int
  assumes "0 < a"
  shows "\<exists>k. 2 ^ k \<le> a \<and> a < 2 ^ Suc k"
proof -
  have "1 \<le> nat a" using assms by simp
  from ex_power_ivl1 [of 2 "nat a", OF _ this] obtain n where
    n: "2 ^ n \<le> nat a" "nat a < 2 ^ (n + 1)" by auto
  have "int (2 ^ n) \<le> int (nat a)" using n(1) by (simp only: of_nat_le_iff)
  moreover have "int (nat a) < int (2 ^ (n + 1))" using n(2) by (simp only: of_nat_less_iff)
  ultimately have "2 ^ n \<le> a \<and> a < 2 ^ Suc n" using assms by simp
  then show ?thesis by blast
qed

lemma f32_of_int_fields:
  assumes "2 ^ k \<le> \<bar>v\<bar>" "\<bar>v\<bar> < 2 ^ Suc k" "k \<le> 126"
  shows "f32_exp (f32_of_int v) = (if f32_round \<bar>v\<bar> k = 2 ^ 24 then k + 128 else k + 127)"
    "f32_man (f32_of_int v) = (if f32_round \<bar>v\<bar> k = 2 ^ 24 then 0 else f32_round \<bar>v\<bar> k - 2 ^ 23)"
    "f32_sign (f32_of_int v) \<longleftrightarrow> v < 0"
proof -
  define q where "q = f32_round \<bar>v\<bar> k"
  define e where "e = (if q = 2 ^ 24 then k + 1 else k)"
  define m where "m = (if q = 2 ^ 24 then 2 ^ 23 else q)"
  have pos: "(0::int) < 2 ^ k" by simp
  then have v0: "v \<noteq> 0" using assms(1) by linarith
  have bl: "bitlen_int \<bar>v\<bar> - 1 = k" using bitlen_int_pow [OF assms(1,2)] by simp
  have qb: "2 ^ 23 \<le> q" "q \<le> 2 ^ 24"
    using f32_round_bounds [OF assms(1,2)] by (simp_all add: q_def)
  have mb: "0 \<le> m - 2 ^ 23" "m - 2 ^ 23 < 2 ^ 23" using qb by (auto simp: m_def)
  have eb: "0 \<le> int e + 127" "int e + 127 < 256" using assms(3) by (auto simp: e_def)
  have w: "f32_of_int v =
      word_of_int ((if v < 0 then 2 ^ 31 else 0) + (int e + 127) * 2 ^ 23 + (m - 2 ^ 23))"
    using v0 bl by (simp add: f32_of_int_def Let_def q_def e_def m_def)
  show "f32_exp (f32_of_int v) = (if f32_round \<bar>v\<bar> k = 2 ^ 24 then k + 128 else k + 127)"
    unfolding w f32_compose(1) [OF eb mb] by (auto simp: e_def q_def nat_add_distrib)
  show "f32_man (f32_of_int v) = (if f32_round \<bar>v\<bar> k = 2 ^ 24 then 0 else f32_round \<bar>v\<bar> k - 2 ^ 23)"
    unfolding w f32_compose(2) [OF eb mb] by (simp add: m_def q_def)
  show "f32_sign (f32_of_int v) \<longleftrightarrow> v < 0"
    unfolding w f32_compose(3) [OF eb mb] by simp
qed

lemma f32_zero_fields: "f32_exp 0 = 0" "f32_man 0 = 0" "f32_of_int 0 = 0"
  by (simp_all add: f32_exp_def f32_man_def f32_of_int_def)

lemma f32_of_int_is_integer:
  assumes "\<bar>v\<bar> < 2 ^ 127"
  shows "f32_is_integer (f32_of_int v)"
proof (cases "v = 0")
  case True
  then show ?thesis by (simp add: f32_is_integer_def f32_zero_fields)
next
  case False
  then have "0 < \<bar>v\<bar>" by simp
  from bitlen_ex [OF this] obtain k where k: "2 ^ k \<le> \<bar>v\<bar>" "\<bar>v\<bar> < 2 ^ Suc k" by blast
  have "(2::int) ^ k < 2 ^ 127" using k(1) assms by linarith
  then have "k < 127" by (simp only: power_strict_increasing_iff) 
  then have k126: "k \<le> 126" by simp
  note fl = f32_of_int_fields [OF k k126]
  define q where "q = f32_round \<bar>v\<bar> k"
  show ?thesis
  proof (cases "q = 2 ^ 24")
    case True
    have ex: "f32_exp (f32_of_int v) = k + 128" "f32_man (f32_of_int v) = 0"
      using fl True by (simp_all add: q_def)
    have "(2 ^ 23 :: int) mod 2 ^ (22 - k) = 0"
      by (intro dvd_imp_mod_0 le_imp_power_dvd) simp
    then show ?thesis using k126 by (simp add: f32_is_integer_def ex)
  next
    case nq: False
    have ex: "f32_exp (f32_of_int v) = k + 127" "f32_man (f32_of_int v) = q - 2 ^ 23"
      using fl nq by (simp_all add: q_def)
    show ?thesis
    proof (cases "k \<le> 23")
      case True
      then have "q = \<bar>v\<bar> * 2 ^ (23 - k)" by (simp add: q_def f32_round_def)
      then have "q mod 2 ^ (23 - k) = 0" by simp
      then show ?thesis using True by (simp add: f32_is_integer_def ex)
    next
      case False
      then show ?thesis using k126 by (simp add: f32_is_integer_def ex)
    qed
  qed
qed

lemma f32_zero_bits:
  assumes "uint (w :: 32 word) mod 2 ^ 31 = 0"
  shows "f32_exp w = 0" "f32_man w = 0"
proof -
  define q where "q = uint w div 2 ^ 31"
  have u: "uint w = q * 2 ^ 31" using assms by (simp add: q_def mod_0_imp_dvd)
  have "uint w < 2 * 2 ^ 31" using uint_lt2p [of w] by simp
  then have "q < 2" unfolding q_def by (rule div_upper)
  moreover have "0 \<le> q" unfolding q_def by (intro pos_imp_zdiv_nonneg_iff [THEN iffD2]) simp_all
  ultimately have "q = 0 \<or> q = 1" by auto
  then show "f32_exp w = 0" "f32_man w = 0"
    by (auto simp: f32_exp_def f32_man_def u)
qed

lemma f32_eq_imp_integer:
  assumes "f32_eq w (f32_of_int v)" "\<bar>v\<bar> < 2 ^ 127"
  shows "f32_is_integer w"
proof (cases "w = f32_of_int v")
  case True
  then show ?thesis using f32_of_int_is_integer [OF assms(2)] by simp
next
  case False
  then have "uint w mod 2 ^ 31 = 0" using assms(1) by (simp add: f32_eq_def)
  from f32_zero_bits [OF this] show ?thesis by (simp add: f32_is_integer_def)
qed

lemma f32_round_pow: "f32_round (2 ^ N) N = 2 ^ 23"
proof (cases "N \<le> 23")
  case True
  then show ?thesis by (simp add: f32_round_def flip: power_add)
next
  case False
  define j where "j = N - 23"
  have N: "N = 23 + j" using False by (simp add: j_def)
  show ?thesis using f32_round_scaled [of "2 ^ 23" j] by (simp add: N power_add)
qed

lemma f32_of_int_exp_le:
  assumes "\<bar>v\<bar> \<le> 2 ^ N" "N \<le> 126"
  shows "f32_exp (f32_of_int v) \<le> 127 + N"
    "f32_exp (f32_of_int v) = 127 + N \<Longrightarrow> f32_man (f32_of_int v) = 0"
proof -
  have "f32_exp (f32_of_int v) \<le> 127 + N \<and>
        (f32_exp (f32_of_int v) = 127 + N \<longrightarrow> f32_man (f32_of_int v) = 0)"
  proof (cases "v = 0")
    case True
    then show ?thesis by (simp add: f32_zero_fields)
  next
    case False
    then have "0 < \<bar>v\<bar>" by simp
    from bitlen_ex [OF this] obtain k where k: "2 ^ k \<le> \<bar>v\<bar>" "\<bar>v\<bar> < 2 ^ Suc k" by blast
    have "(2::int) ^ k \<le> 2 ^ N" using k(1) assms(1) by linarith
    then have kN: "k \<le> N" by (simp only: power_increasing_iff) 
    then have k126: "k \<le> 126" using assms(2) by simp
    note fl = f32_of_int_fields [OF k k126]
    show ?thesis
    proof (cases "k = N")
      case True
      then have "\<bar>v\<bar> = 2 ^ N" using k(1) assms(1) by simp
      then have "f32_round \<bar>v\<bar> k = 2 ^ 23" using True by (simp add: f32_round_pow)
      then show ?thesis using fl True by simp
    next
      case False
      then have "k < N" using kN by simp
      then show ?thesis using fl by auto
    qed
  qed
  then show "f32_exp (f32_of_int v) \<le> 127 + N"
    "f32_exp (f32_of_int v) = 127 + N \<Longrightarrow> f32_man (f32_of_int v) = 0"
    by simp_all
qed

lemma f32_trunc_magnitude:
  assumes "f32_trunc w = Some t"
  shows "\<bar>t\<bar> =
     (let m = (if f32_exp w = 0 then f32_man w else 2 ^ 23 + f32_man w)
      in if 150 \<le> f32_exp w then m * 2 ^ (f32_exp w - 150) else m div 2 ^ (150 - f32_exp w))"
proof -
  define m where "m = (if f32_exp w = 0 then f32_man w else 2 ^ 23 + f32_man w)"
  define mag where "mag = (if 150 \<le> f32_exp w then m * 2 ^ (f32_exp w - 150) else m div 2 ^ (150 - f32_exp w))"
  have m0: "0 \<le> m" using f32_fields(3) [of w] by (simp add: m_def)
  have "0 \<le> mag" using m0 by (simp add: mag_def pos_imp_zdiv_nonneg_iff)
  moreover have "t = (if f32_sign w then - mag else mag)"
    using assms by (simp add: f32_trunc_def Let_def m_def mag_def split: if_splits)
  ultimately have "\<bar>t\<bar> = mag" by simp
  then show ?thesis unfolding mag_def m_def Let_def .
qed

lemma f32_trunc_exp_ge:
  assumes "f32_trunc w = Some t" "2 ^ N \<le> \<bar>t\<bar>" "24 \<le> N"
  shows "127 + N \<le> f32_exp w"
proof (rule ccontr)
  assume "\<not> 127 + N \<le> f32_exp w"
  then have lt: "f32_exp w < 127 + N" by simp
  define m where "m = (if f32_exp w = 0 then f32_man w else 2 ^ 23 + f32_man w)"
  have mb: "0 \<le> m" "m < 2 ^ 24" using f32_fields(3,4) [of w] by (auto simp: m_def)
  have "\<bar>t\<bar> < 2 ^ N"
  proof (cases "150 \<le> f32_exp w")
    case True
    define j where "j = f32_exp w - 150"
    have "\<bar>t\<bar> = m * 2 ^ j"
      using f32_trunc_magnitude [OF assms(1)] True by (simp add: Let_def m_def j_def)
    also have "\<dots> < 2 ^ 24 * 2 ^ j" using mb(2) by (intro mult_strict_right_mono) simp_all
    also have "\<dots> = 2 ^ (24 + j)" by (simp add: power_add)
    also have "\<dots> \<le> 2 ^ N" using lt True by (intro power_increasing) (simp_all add: j_def)
    finally show ?thesis .
  next
    case False
    have "\<bar>t\<bar> = m div 2 ^ (150 - f32_exp w)"
      using f32_trunc_magnitude [OF assms(1)] False by (simp add: Let_def m_def)
    also have "\<dots> \<le> m"
    proof -
      have "(m + 1) * 1 \<le> (m + 1) * 2 ^ (150 - f32_exp w)"
        using mb(1) by (intro mult_left_mono) simp_all
      then have "m < (m + 1) * 2 ^ (150 - f32_exp w)" by simp
      then have "m div 2 ^ (150 - f32_exp w) < m + 1" by (rule div_upper)
      then show ?thesis by simp
    qed
    also have "\<dots> < 2 ^ 24" by (rule mb(2))
    also have "\<dots> \<le> 2 ^ N" using assms(3) by (intro power_increasing) simp_all
    finally show ?thesis .
  qed
  then show False using assms(2) by simp
qed

lemma f32_trunc_pow:
  assumes "f32_trunc w = Some t" "f32_exp w = 127 + N" "f32_man w = 0" "24 \<le> N"
  shows "\<bar>t\<bar> = 2 ^ N"
proof -
  have "(2::int) ^ 23 * 2 ^ (N - 23) = 2 ^ (23 + (N - 23))" by (simp only: power_add)
  also have "23 + (N - 23) = N" using assms(4) by simp
  finally have "(2::int) ^ 23 * 2 ^ (N - 23) = 2 ^ N" .
  then show ?thesis
    using f32_trunc_magnitude [OF assms(1)] assms(2,3,4) by (simp add: Let_def)
qed

text \<open>
  A value outside the range of a signed integer type of \<open>N + 1\<close> bits, other than
  \<open>2 ^ N\<close>, differs from the \<^verbatim>\<open>float\<close> of every integer of that type.
\<close>

lemma f32_eq_out_of_range:
  assumes "f32_trunc w = Some t" "t < - (2 ^ N) \<or> 2 ^ N < t" "\<bar>c\<bar> \<le> 2 ^ N" "24 \<le> N" "N \<le> 126"
  shows "\<not> f32_eq w (f32_of_int c)"
proof
  assume eq: "f32_eq w (f32_of_int c)"
  have big: "2 ^ N < \<bar>t\<bar>" using assms(2) by auto
  then have ge: "2 ^ N \<le> \<bar>t\<bar>" by simp
  have lo: "127 + N \<le> f32_exp w" by (rule f32_trunc_exp_ge [OF assms(1) ge assms(4)])
  show False
  proof (cases "w = f32_of_int c")
    case True
    have "f32_exp w \<le> 127 + N" unfolding True by (rule f32_of_int_exp_le(1) [OF assms(3,5)])
    then have e: "f32_exp w = 127 + N" using lo by simp
    then have "f32_man w = 0" unfolding True by (rule f32_of_int_exp_le(2) [OF assms(3,5)])
    from f32_trunc_pow [OF assms(1) e this assms(4)] big show False by simp
  next
    case False
    then have "uint w mod 2 ^ 31 = 0" using eq by (simp add: f32_eq_def)
    from f32_zero_bits(1) [OF this] lo show False by simp
  qed
qed

lemma f32_cast_int_bounds: "\<bar>f32_cast_int uc w\<bar> \<le> 2 ^ 31"
proof (cases "f32_to_int32 w")
  case None
  then show ?thesis
    using sint_ge [of "uc w"] sint_lt [of "uc w"] by (simp add: f32_cast_int_def)
next
  case (Some i)
  then show ?thesis
    by (auto simp: f32_cast_int_def f32_to_int32_def split: option.splits if_splits)
qed

lemma f32_cast_int64_bounds: "\<bar>f32_cast_int64 uc w\<bar> \<le> 2 ^ 63"
proof (cases "f32_to_int64 w")
  case None
  then show ?thesis
    using sint_ge [of "uc w"] sint_lt [of "uc w"] by (simp add: f32_cast_int64_def)
next
  case (Some i)
  then show ?thesis
    by (auto simp: f32_cast_int64_def f32_to_int64_def split: option.splits if_splits)
qed

section \<open>Float constants in the code generator\<close>

text \<open>
  The arithmetic operators that work on integer vectors, with the operation each emits, and
  the two that are computed in float whatever their operands.
\<close>

definition arith_ops :: "(ExprOpType \<times> prim) list" where
  "arith_ops = [(ADD, P_Add), (SUB, P_Sub), (MUL, P_Mul), (MAX_OP, P_Max), (MIN_OP, P_Min)]"

definition float_ops :: "(ExprOpType \<times> prim) list" where
  "float_ops = [(DIV, P_Div), (MOD, P_Mod)]"

lemma jit_op_CONSTANTF:
  "jit_op uc ctx (mkOpImm CONSTANTF f) (st, vars) = Inr (st @ [jit_CONSTANTF uc f], vars)"
  by (simp add: jit_op_def check_validity_def jit_switch_def mkOpImm_def mkExprOp_def numOperands_def)

lemma jit_CONSTANTF_whole:
  assumes "f32_is_integer f" "f32_to_int32 f = Some i"
  shows "f32_eq f (f32_of_int (f32_cast_int uc f))"
    "jit_CONSTANTF uc f = Value_int_const (word_of_int i)"
  using f32_integer_cast_eq [OF assms] assms(2)
  by (simp_all add: jit_CONSTANTF_def f32_cast_int_def)

lemma cast_int_small: "\<bar>f32_cast_int uc f\<bar> < 2 ^ 127"
proof -
  have "\<bar>f32_cast_int uc f\<bar> \<le> 2 ^ 31" by (rule f32_cast_int_bounds)
  also have "(2::int) ^ 31 < 2 ^ 127" by simp
  finally show ?thesis .
qed

lemma jit_CONSTANTF_fraction:
  assumes "\<not> f32_is_integer f"
  shows "\<not> f32_eq f (f32_of_int (f32_cast_int uc f))"
    "jit_CONSTANTF uc f = Value_float_const f"
proof -
  show "\<not> f32_eq f (f32_of_int (f32_cast_int uc f))"
    using f32_eq_imp_integer [OF _ cast_int_small, of f uc f] assms by blast
  then show "jit_CONSTANTF uc f = Value_float_const f" by (simp add: jit_CONSTANTF_def)
qed

lemma jit_CONSTANTF_large:
  assumes "f32_trunc f = Some t" "t < - (2 ^ 31) \<or> 2 ^ 31 < t"
  shows "\<not> f32_eq f (f32_of_int (f32_cast_int uc f))"
    "jit_CONSTANTF uc f = Value_float_const f"
proof -
  show "\<not> f32_eq f (f32_of_int (f32_cast_int uc f))"
    by (rule f32_eq_out_of_range [OF assms f32_cast_int_bounds]) simp_all
  then show "jit_CONSTANTF uc f = Value_float_const f" by (simp add: jit_CONSTANTF_def)
qed

lemma jit_op_arith:
  assumes "(t, p) \<in> set arith_ops" "\<not> forceFloat ctx" "\<not> isFloat x" "\<not> isFloat y"
  shows "jit_op uc ctx (mkOp t) (st @ [x, y], vars) = Inr (st @ [Value_IntV (App p [node x, node y])], vars)"
  using assms
  by (auto simp: arith_ops_def jit_op_def check_validity_def jit_switch_def mkOp_def mkExprOp_def
        numOperands_def BINARYOP_def butlast_append)

lemma jit_op_float:
  assumes "(t, p) \<in> set float_ops" "\<not> isFloat x" "\<not> isFloat y"
  shows "jit_op uc ctx (mkOp t) (st @ [x, y], vars) =
           Inr (st @ [Value_FloatV (App p [App P_FloatV [node x], App P_FloatV [node y]])], vars)"
  using assms
  by (auto simp: float_ops_def jit_op_def check_validity_def jit_switch_def mkOp_def mkExprOp_def
        numOperands_def BINARYOP_def butlast_append)

lemma jit_op_MEM_LOAD_int:
  assumes "optype ld = MEM_LOAD" "clip_format ctx (sint (imm ld)) = Some fmt"
    "sampleType fmt = stInteger" "\<not> forceFloat ctx"
  shows "jit_op uc ctx ld (st, vars) =
     Inr (st @ [Value_IntV (Load (sint (imm ld)) (dx ld) (dy ld) (bc ld))], vars)"
proof -
  have "sint (imm ld) < numInputs ctx"
    using assms(2) by (auto simp: clip_format_def split: if_splits)
  then show ?thesis using assms
    by (simp add: jit_op_def check_validity_def jit_switch_def numOperands_def)
qed

lemma jit_ops_pixel_constant:
  assumes "f32_is_integer f" "f32_to_int32 f = Some i" "\<not> forceFloat ctx"
    "optype ld = MEM_LOAD" "clip_format ctx (sint (imm ld)) = Some fmt" "sampleType fmt = stInteger"
  shows "jit_ops uc ctx [ld, mkOpImm CONSTANTF f, op] (st, vars) =
           jit_op uc ctx op (st @ [Value_IntV (Load (sint (imm ld)) (dx ld) (dy ld) (bc ld)),
                                   Value_int_const (word_of_int i)], vars)"
  using jit_op_MEM_LOAD_int [OF assms(4,5,6,3), of uc st vars] jit_CONSTANTF_whole(2) [OF assms(1,2), of uc]
  by (simp add: jit_op_CONSTANTF split: sum.splits)

text \<open>
  Claim C9, in the form that holds of the code. A \<open>CONSTANTF\<close> whose immediate is a whole number that \<^verbatim>\<open>int\<close> holds
  passes the test \<^verbatim>\<open>f == (float)(int)f\<close> and is pushed as the integer constant of that
  number. An immediate that is no whole number (a fraction, an infinity, a NaN) and a whole
  number beyond \<open>2 ^ 31\<close> in magnitude fail the test, whatever the cast gives for them, and
  are pushed as float constants. With integer code generation switched on, a pixel of an
  integer clip, an integer constant of the first kind and one of \<^verbatim>\<open>+ - * max min\<close> give an
  integer vector; with \<^verbatim>\<open>/\<close> and \<^verbatim>\<open>%\<close> both operands are converted and the result is a
  float vector.
\<close>

theorem constantf_int_or_float:
  "(f32_is_integer f \<and> f32_to_int32 f = Some i \<longrightarrow>
      f32_eq f (f32_of_int (f32_cast_int uc f)) \<and>
      jit_op uc ctx (mkOpImm CONSTANTF f) (st, vars) =
        Inr (st @ [Value_int_const (word_of_int i)], vars)) \<and>
   (\<not> f32_is_integer f \<or> (f32_trunc f = Some t \<and> (t < - (2 ^ 31) \<or> 2 ^ 31 < t)) \<longrightarrow>
      \<not> f32_eq f (f32_of_int (f32_cast_int uc f)) \<and>
      jit_op uc ctx (mkOpImm CONSTANTF f) (st, vars) = Inr (st @ [Value_float_const f], vars)) \<and>
   (f32_is_integer f \<and> f32_to_int32 f = Some i \<and> \<not> forceFloat ctx \<and>
    optype ld = MEM_LOAD \<and> clip_format ctx (sint (imm ld)) = Some fmt \<and>
    sampleType fmt = stInteger \<longrightarrow>
      ((a, p) \<in> set arith_ops \<longrightarrow>
         jit_ops uc ctx [ld, mkOpImm CONSTANTF f, mkOp a] (st, vars) =
           Inr (st @ [Value_IntV (App p [Load (sint (imm ld)) (dx ld) (dy ld) (bc ld),
                                         IConst (word_of_int i)])], vars)) \<and>
      ((a, p) \<in> set float_ops \<longrightarrow>
         jit_ops uc ctx [ld, mkOpImm CONSTANTF f, mkOp a] (st, vars) =
           Inr (st @ [Value_FloatV (App p [App P_FloatV [Load (sint (imm ld)) (dx ld) (dy ld) (bc ld)],
                                           App P_FloatV [IConst (word_of_int i)]])], vars)))"
proof (intro conjI impI)
  assume h: "f32_is_integer f \<and> f32_to_int32 f = Some i"
  then show "f32_eq f (f32_of_int (f32_cast_int uc f))"
    using jit_CONSTANTF_whole(1) [of f i uc] by simp
  from h show "jit_op uc ctx (mkOpImm CONSTANTF f) (st, vars) =
        Inr (st @ [Value_int_const (word_of_int i)], vars)"
    using jit_CONSTANTF_whole(2) [of f i uc] by (simp add: jit_op_CONSTANTF)
next
  assume h: "\<not> f32_is_integer f \<or> (f32_trunc f = Some t \<and> (t < - (2 ^ 31) \<or> 2 ^ 31 < t))"
  then show "\<not> f32_eq f (f32_of_int (f32_cast_int uc f))"
    using jit_CONSTANTF_fraction(1) [of f uc] jit_CONSTANTF_large(1) [of f t uc] by blast
  from h have "jit_CONSTANTF uc f = Value_float_const f"
    using jit_CONSTANTF_fraction(2) [of f uc] jit_CONSTANTF_large(2) [of f t uc] by blast
  then show "jit_op uc ctx (mkOpImm CONSTANTF f) (st, vars) = Inr (st @ [Value_float_const f], vars)"
    by (simp add: jit_op_CONSTANTF)
next
  assume h: "f32_is_integer f \<and> f32_to_int32 f = Some i \<and> \<not> forceFloat ctx \<and>
    optype ld = MEM_LOAD \<and> clip_format ctx (sint (imm ld)) = Some fmt \<and>
    sampleType fmt = stInteger" and a: "(a, p) \<in> set arith_ops"
  have "jit_ops uc ctx [ld, mkOpImm CONSTANTF f, mkOp a] (st, vars) =
           jit_op uc ctx (mkOp a) (st @ [Value_IntV (Load (sint (imm ld)) (dx ld) (dy ld) (bc ld)),
                                   Value_int_const (word_of_int i)], vars)"
    using h jit_ops_pixel_constant [of f i ctx ld fmt uc "mkOp a" st vars] by simp
  also have "\<dots> = Inr (st @ [Value_IntV (App p [node (Value_IntV (Load (sint (imm ld)) (dx ld) (dy ld) (bc ld))),
                                               node (Value_int_const (word_of_int i))])], vars)"
    using h a by (intro jit_op_arith) (simp_all add: Value_IntV_def Value_int_const_def)
  finally show "jit_ops uc ctx [ld, mkOpImm CONSTANTF f, mkOp a] (st, vars) =
           Inr (st @ [Value_IntV (App p [Load (sint (imm ld)) (dx ld) (dy ld) (bc ld),
                                         IConst (word_of_int i)])], vars)"
    by (simp add: Value_IntV_def Value_int_const_def)
next
  assume h: "f32_is_integer f \<and> f32_to_int32 f = Some i \<and> \<not> forceFloat ctx \<and>
    optype ld = MEM_LOAD \<and> clip_format ctx (sint (imm ld)) = Some fmt \<and>
    sampleType fmt = stInteger" and a: "(a, p) \<in> set float_ops"
  have "jit_ops uc ctx [ld, mkOpImm CONSTANTF f, mkOp a] (st, vars) =
           jit_op uc ctx (mkOp a) (st @ [Value_IntV (Load (sint (imm ld)) (dx ld) (dy ld) (bc ld)),
                                   Value_int_const (word_of_int i)], vars)"
    using h jit_ops_pixel_constant [of f i ctx ld fmt uc "mkOp a" st vars] by simp
  also have "\<dots> = Inr (st @ [Value_FloatV (App p
        [App P_FloatV [node (Value_IntV (Load (sint (imm ld)) (dx ld) (dy ld) (bc ld)))],
         App P_FloatV [node (Value_int_const (word_of_int i))]])], vars)"
    using a by (intro jit_op_float) (simp_all add: Value_IntV_def Value_int_const_def)
  finally show "jit_ops uc ctx [ld, mkOpImm CONSTANTF f, mkOp a] (st, vars) =
           Inr (st @ [Value_FloatV (App p [App P_FloatV [Load (sint (imm ld)) (dx ld) (dy ld) (bc ld)],
                                           App P_FloatV [IConst (word_of_int i)]])], vars)"
    by (simp add: Value_IntV_def Value_int_const_def)
qed

text \<open>A context with one 8-bit integer clip and integer code generation switched on.\<close>

definition ctx_int8 :: Context where
  "ctx_int8 = \<lparr>ctx_ops = [], ctx_vo = gray8, ctx_vi = [gray8], numInputs = 1, optMask = 1,
                mirror = False\<rparr>"

lemma constantf_samples:
  "f32_is_integer 0x40000000" "f32_to_int32 0x40000000 = Some 2"
  "\<not> f32_is_integer pi_f32"
  "f32_is_integer 0x501502F9" "f32_trunc 0x501502F9 = Some 10000000000"
  by code_simp+

lemma ctx_int8_facts:
  "\<not> forceFloat ctx_int8" "clip_format ctx_int8 0 = Some gray8" "sampleType gray8 = stInteger"
  by code_simp+

theorem constantf_int_or_float_witness:
  "jit_op cvtt_indefinite ctx_int8 (mkOpImm CONSTANTF 0x40000000) ([], []) = Inr ([Value_int_const 2], []) \<and>
   jit_op cvtt_indefinite ctx_int8 (mkOpImm CONSTANTF pi_f32) ([], []) = Inr ([Value_float_const pi_f32], []) \<and>
   jit_op cvtt_indefinite ctx_int8 (mkOpImm CONSTANTF 0x501502F9) ([], []) =
     Inr ([Value_float_const 0x501502F9], []) \<and>
   jit_ops cvtt_indefinite ctx_int8 [mkOpImm MEM_LOAD 0, mkOpImm CONSTANTF 0x40000000, mkOp MUL] ([], []) =
     Inr ([Value_IntV (App P_Mul [Load 0 0 0 Unspecified, IConst 2])], []) \<and>
   jit_ops cvtt_indefinite ctx_int8 [mkOpImm MEM_LOAD 0, mkOpImm CONSTANTF 0x40000000, mkOp DIV] ([], []) =
     Inr ([Value_FloatV (App P_Div [App P_FloatV [Load 0 0 0 Unspecified], App P_FloatV [IConst 2]])], [])"
  using constantf_int_or_float
          [of "0x40000000" 2 cvtt_indefinite ctx_int8 "[]" "[]" 0 "mkOpImm MEM_LOAD 0" gray8 MUL P_Mul]
        constantf_int_or_float
          [of "0x40000000" 2 cvtt_indefinite ctx_int8 "[]" "[]" 0 "mkOpImm MEM_LOAD 0" gray8 DIV P_Div]
        constantf_int_or_float
          [of pi_f32 3 cvtt_indefinite ctx_int8 "[]" "[]" 0 "mkOpImm MEM_LOAD 0" gray8 MUL P_Mul]
        constantf_int_or_float
          [of "0x501502F9" 0 cvtt_indefinite ctx_int8 "[]" "[]" 10000000000 "mkOpImm MEM_LOAD 0" gray8 MUL P_Mul]
  by (simp add: constantf_samples ctx_int8_facts arith_ops_def float_ops_def mkOpImm_def mkExprOp_def)

text \<open>
  The claim as it stands fails on a whole number that \<^verbatim>\<open>int\<close> does not hold: \<^verbatim>\<open>1e10\<close> is
  pushed as a float constant (here with the cast of x86). And an integer constant does not
  keep the division of an integer pixel in the integer domain.
\<close>

theorem constantf_whole_number_pushes_float:
  "f32_is_integer 0x501502F9 \<and> f32_trunc 0x501502F9 = Some 10000000000 \<and>
   jit_op cvtt_indefinite ctx_int8 (mkOpImm CONSTANTF 0x501502F9) ([], []) =
     Inr ([Value_float_const 0x501502F9], []) \<and>
   jit_ops cvtt_indefinite ctx_int8 [mkOpImm MEM_LOAD 0, mkOpImm CONSTANTF 0x40000000, mkOp DIV] ([], []) =
     Inr ([Value_FloatV (App P_Div [App P_FloatV [Load 0 0 0 Unspecified], App P_FloatV [IConst 2]])], [])"
  by code_simp

section \<open>The sorting network and the schedule of the specification\<close>

text \<open>A network of the specification as the pairs of \<^verbatim>\<open>int\<close> that the source builds.\<close>

definition net_int :: "(nat \<times> nat) list \<Rightarrow> (int \<times> int) list" where
  "net_int = map (\<lambda>(a, b). (int a, int b))"

lemma net_int_simps [simp]: "net_int [] = []" "net_int (xs @ ys) = net_int xs @ net_int ys"
  "net_int ((a, b) # xs) = (int a, int b) # net_int xs"
  by (simp_all add: net_int_def)

lemma sortnet_for_eq:
  "sortnet_for (int n) (int p) (int r) (int d) (int i) sn =
     sn @ net_int (map (\<lambda>i. (i, i + d)) (filter (\<lambda>i. i AND p = r) [i ..< n - d]))"
proof (induction "n - d - i" arbitrary: i sn)
  case 0
  then have "\<not> int i < int n - int d" by linarith
  moreover have "[i ..< n - d] = []" using 0 by simp
  ultimately show ?case by (subst sortnet_for.simps) simp
next
  case (Suc k)
  then have lt: "int i < int n - int d" and l: "[i ..< n - d] = i # [Suc i ..< n - d]"
    by (simp_all add: upt_conv_Cons) 
  have a: "int i AND int p = int r \<longleftrightarrow> i AND p = r"
    by (simp flip: of_nat_and_eq)
  have k: "k = n - d - Suc i" using Suc.hyps(2) by simp
  have "sortnet_for (int n) (int p) (int r) (int d) (int i) sn =
        sortnet_for (int n) (int p) (int r) (int d) (int (Suc i))
          (if i AND p = r then sn @ [(int i, int i + int d)] else sn)"
    using lt a by (subst sortnet_for.simps) (simp add: add.commute)
  also have "\<dots> = (if i AND p = r then sn @ [(int i, int i + int d)] else sn) @
       net_int (map (\<lambda>i. (i, i + d)) (filter (\<lambda>i. i AND p = r) [Suc i ..< n - d]))"
    by (rule Suc.hyps(1) [OF k])
  finally show ?case by (simp add: l)
qed

lemma sortnet_for_emit:
  "sortnet_for (int n) (int p) (int r) (int d) 0 sn = sn @ net_int (spec_emit n p r d)"
  using sortnet_for_eq [of n p r d 0 sn] by (simp add: spec_emit_def)

lemma sortnet_while_d_eq:
  assumes "p > 0" "d > 0 \<longrightarrow> (\<exists>j. q = p * 2 ^ j)"
  shows "sortnet_while_d (int n) (int p) (int q) (int r) (int d) sn =
           Some (sn @ net_int (spec_while_d n p q r d))"
  using assms
proof (induction n p q r d arbitrary: sn rule: spec_while_d.induct)
  case (1 n p q r d)
  show ?case
  proof (cases "d > 0")
    case False
    then show ?thesis
      by (subst sortnet_while_d.simps, subst spec_while_d.simps) simp
  next
    case True
    then obtain j where j: "q = p * 2 ^ j" using "1.prems"(2) by blast
    then have pq: "p \<le> q" by simp
    have inv: "q - p > 0 \<longrightarrow> (\<exists>j'. q div 2 = p * 2 ^ j')"
    proof
      assume "q - p > 0"
      then have "j \<noteq> 0" using j by (cases j) auto
      then obtain j' where "j = Suc j'" by (cases j) auto
      then have "q div 2 = p * 2 ^ j'" using j by simp
      then show "\<exists>j'. q div 2 = p * 2 ^ j'" ..
    qed
    have "sortnet_while_d (int n) (int p) (int q) (int r) (int d) sn =
          sortnet_while_d (int n) (int p) (int (q div 2)) (int p) (int (q - p))
            (sn @ net_int (spec_emit n p r d))"
      using True pq by (subst sortnet_while_d.simps) (simp add: sortnet_for_emit of_nat_diff zdiv_int)
    also have "\<dots> = Some ((sn @ net_int (spec_emit n p r d)) @
                  net_int (spec_while_d n p (q div 2) p (q - p)))"
      by (rule "1.IH" [OF True "1.prems"(1) inv])
    finally show ?thesis using True by (subst spec_while_d.simps) simp
  qed
qed


lemma sortnet_while_p_eq:
  assumes "p = 0 \<or> (\<exists>b j. p = 2 ^ b \<and> 2 ^ (t - 1) = p * 2 ^ j)"
  shows "sortnet_while_p (int n) (int (2 ^ (t - 1))) (int p) sn =
           Some (sn @ net_int (spec_while_p n t p))"
  using assms
proof (induction n t p arbitrary: sn rule: spec_while_p.induct)
  case (1 n t p)
  show ?case
  proof (cases "p > 0")
    case False
    then show ?thesis
      by (subst sortnet_while_p.simps, subst spec_while_p.simps) simp
  next
    case True
    then obtain b j where bj: "p = 2 ^ b" "(2::nat) ^ (t - 1) = p * 2 ^ j"
      using "1.prems" by auto
    have inv: "p div 2 = 0 \<or> (\<exists>b' j'. p div 2 = 2 ^ b' \<and> 2 ^ (t - 1) = p div 2 * 2 ^ j')"
    proof (cases b)
      case 0
      then show ?thesis using bj by simp
    next
      case (Suc b')
      then have "p div 2 = 2 ^ b'" "(2::nat) ^ (t - 1) = p div 2 * 2 ^ Suc j"
        using bj by simp_all
      then show ?thesis by blast
    qed
    have d: "sortnet_while_d (int n) (int p) (int (2 ^ (t - 1))) (int 0) (int p) sn =
        Some (sn @ net_int (spec_while_d n p (2 ^ (t - 1)) 0 p))"
      using True bj(2) by (intro sortnet_while_d_eq) auto
    have "sortnet_while_p (int n) (int (2 ^ (t - 1))) (int p) sn =
          sortnet_while_p (int n) (int (2 ^ (t - 1))) (int (p div 2))
            (sn @ net_int (spec_while_d n p (2 ^ (t - 1)) 0 p))"
      using True d by (subst sortnet_while_p.simps) (simp add: zdiv_int)
    also have "\<dots> = Some ((sn @ net_int (spec_while_d n p (2 ^ (t - 1)) 0 p)) @
                  net_int (spec_while_p n t (p div 2)))"
      by (rule "1.IH" [OF True inv])
    finally show ?thesis using True by (subst spec_while_p.simps) simp
  qed
qed

lemma ceil_log2_unique:
  assumes "1 \<le> n" "n \<le> 2 ^ t" "t = 0 \<or> 2 ^ (t - 1) < n"
  shows "spec_t n = t"
proof (cases "t = 0")
  case True
  then have "n = 1" using assms by simp
  then show ?thesis using True by (simp add: spec_t_def)
next
  case False
  then have lo: "2 ^ (t - 1) < n" using assms(3) by simp
  have n0: "0 < real n" using assms(1) by simp
  have "real n \<le> 2 ^ t" using assms(2) by (metis of_nat_le_iff of_nat_numeral of_nat_power)
  then have up: "log 2 (real n) \<le> real t"
    using n0 by (simp add: log_le_iff powr_realpow)
  have "(2::real) ^ (t - 1) < real n" using lo by (metis of_nat_less_iff of_nat_numeral of_nat_power)
  then have dn: "real (t - 1) < log 2 (real n)"
    using n0 by (simp add: less_log_iff powr_realpow)
  have "\<lceil>log 2 (real n)\<rceil> = int (t - 1) + 1"
    by (rule ceiling_unique) (use up dn False in simp_all)
  then show ?thesis using False by (simp add: spec_t_def)
qed

lemma sortnet_t_eq:
  assumes "1 \<le> n" "n \<le> 2 ^ 30" "t \<le> 30" "t = 0 \<or> 2 ^ (t - 1) < n"
  shows "sortnet_t (int n) (int t) = Some (int (spec_t n))"
  using assms
proof (induction "30 - t" arbitrary: t)
  case 0
  then have t: "t = 30" by simp
  then have "shl1 (int t) = Some (2 ^ 30)" by (simp add: shl1_def)
  moreover have "\<not> int n > 2 ^ 30" using 0(3) by (metis of_nat_le_iff of_nat_numeral of_nat_power not_less)
  moreover have "spec_t n = t" using 0 t by (intro ceil_log2_unique) auto
  ultimately show ?case by (subst sortnet_t.simps) (simp add: t)
next
  case (Suc k)
  then have t: "t < 30" by simp
  then have s: "shl1 (int t) = Some (2 ^ t)" by (simp add: shl1_def)
  show ?case
  proof (cases "n > 2 ^ t")
    case True
    then have g: "int n > 2 ^ t" by (metis of_nat_less_iff of_nat_numeral of_nat_power)
    have "sortnet_t (int n) (int (Suc t)) = Some (int (spec_t n))"
      using Suc True t by (intro Suc.hyps(1)) auto
    then show ?thesis using s g by (subst sortnet_t.simps) (simp add: add.commute)
  next
    case False
    then have g: "\<not> int n > 2 ^ t" by (metis of_nat_less_iff of_nat_numeral of_nat_power)
    have "spec_t n = t" using Suc.prems False by (intro ceil_log2_unique) auto
    then show ?thesis using s g by (subst sortnet_t.simps) simp
  qed
qed

lemma spec_t_bounds:
  assumes "2 \<le> n" "n \<le> 2 ^ 30"
  shows "1 \<le> spec_t n" "spec_t n \<le> 30"
proof -
  have n0: "0 < real n" using assms(1) by simp
  have "(2::real) ^ 0 < real n" using assms(1) by simp
  then have "0 < log 2 (real n)" using n0 by (simp add: less_log_iff)
  then have "0 < \<lceil>log 2 (real n)\<rceil>" by simp
  then show "1 \<le> spec_t n" by (simp add: spec_t_def Suc_le_eq)
  have "real n \<le> 2 ^ 30" using assms(2) by (metis of_nat_le_iff of_nat_numeral of_nat_power)
  then have "log 2 (real n) \<le> real (30::nat)"
    using n0 by (simp add: log_le_iff powr_realpow)
  then have "\<lceil>log 2 (real n)\<rceil> \<le> 30" by (simp add: ceiling_le_iff)
  then show "spec_t n \<le> 30" by (simp add: spec_t_def)
qed

lemma buildSortNet_eq_spec:
  assumes "2 \<le> n" "n \<le> 2 ^ 30"
  shows "buildSortNet (int n) = Some (net_int (spec_sortnet n))"
proof -
  note b = spec_t_bounds [OF assms]
  have t: "sortnet_t (int n) 0 = Some (int (spec_t n))"
    using sortnet_t_eq [of n 0] assms by simp
  have s: "shl1 (int (spec_t n) - 1) = Some (int (2 ^ (spec_t n - 1)))"
    using b by (simp add: shl1_def nat_diff_distrib')
  have "sortnet_while_p (int n) (int (2 ^ (spec_t n - 1))) (int (2 ^ (spec_t n - 1))) [] =
        Some ([] @ net_int (spec_while_p n (spec_t n) (2 ^ (spec_t n - 1))))"
    by (rule sortnet_while_p_eq) (metis mult.right_neutral power_0)
  then show ?thesis
    using t s by (simp add: buildSortNet_def spec_sortnet_def)
qed

lemma spec_emit_pairs: "d > 0 \<Longrightarrow> list_all (\<lambda>(a, b). a < b \<and> b < n) (spec_emit n p r d)"
  by (auto simp: spec_emit_def list_all_iff)

lemma spec_while_d_pairs: "list_all (\<lambda>(a, b). a < b \<and> b < n) (spec_while_d n p q r d)"
proof (induction n p q r d rule: spec_while_d.induct)
  case (1 n p q r d)
  show ?case
  proof (cases "d > 0")
    case True
    then show ?thesis using "1.IH" by (subst spec_while_d.simps) (simp add: spec_emit_pairs)
  next
    case False
    then show ?thesis by (subst spec_while_d.simps) simp
  qed
qed

lemma spec_while_p_pairs: "list_all (\<lambda>(a, b). a < b \<and> b < n) (spec_while_p n t p)"
proof (induction n t p rule: spec_while_p.induct)
  case (1 n t p)
  show ?case
  proof (cases "p > 0")
    case True
    then show ?thesis using "1.IH" by (subst spec_while_p.simps) (simp add: spec_while_d_pairs)
  next
    case False
    then show ?thesis by (subst spec_while_p.simps) simp
  qed
qed

text \<open>
  The lowering in the words of the specification: each comparator \<open>(a, b)\<close> is lowered to
  \<^verbatim>\<open>(min(stack[a], stack[b]), max(stack[a], stack[b]))\<close> with the types promoted as usual.
  The slots are counted from the top of the stack, slot \<open>a\<close> receives the minimum and slot
  \<open>b\<close> the maximum, and an integer vector that meets a float vector is converted to float
  as the binary operators convert it.
\<close>

definition promoted :: "prim \<Rightarrow> Value \<Rightarrow> Value \<Rightarrow> Value" where
  "promoted f l r =
     (if isFloat l \<or> isFloat r then Value_FloatV (App f [ensureFloat l, ensureFloat r])
      else Value_IntV (App f [node l, node r]))"

definition spec_comparator :: "Value list \<Rightarrow> nat \<times> nat \<Rightarrow> Value list" where
  "spec_comparator st c =
     (let top = rev st; a = fst c; b = snd c
      in rev ((top[a := promoted P_Min (top ! a) (top ! b)])
                  [b := promoted P_Max (top ! a) (top ! b)]))"

definition spec_lowering :: "Value list \<Rightarrow> (nat \<times> nat) list \<Rightarrow> Value list" where
  "spec_lowering st net = foldl spec_comparator st net"

text \<open>The \<open>n\<close> values on top of the stack are all float vectors (\<open>fl\<close>) or all integer vectors.\<close>

definition top_uniform :: "nat \<Rightarrow> bool \<Rightarrow> Value list \<Rightarrow> bool" where
  "top_uniform n fl st \<longleftrightarrow> n \<le> length st \<and> (\<forall>i<n. isFloat (rev st ! i) = fl)"

lemma Value_minmax_same_type:
  "isFloat x = isFloat y \<Longrightarrow> Value_minmax f x y = Inr (promoted f x y)"
  by (simp add: Value_minmax_def promoted_def ensureFloat_def)

lemma sort_compare_same_type:
  assumes "a < length st" "b < length st" "isFloat (rev st ! a) = isFloat (rev st ! b)"
  shows "sort_compare st (int a, int b) = Inr (spec_comparator st (a, b))"
proof -
  have i: "at_index st (int a) = Some (length st - 1 - a)"
    "at_index st (int b) = Some (length st - 1 - b)"
    using assms(1,2) by (simp_all add: at_index_def)
  have n: "rev st ! a = st ! (length st - 1 - a)" "rev st ! b = st ! (length st - 1 - b)"
    using assms(1,2) by (simp_all add: rev_nth)
  have u: "rev (((rev st)[a := x])[b := y]) = (st[length st - 1 - a := x])[length st - 1 - b := y]" for x y
    using assms(1,2) by (simp add: rev_update)
  have t: "isFloat (st ! (length st - 1 - a)) = isFloat (st ! (length st - 1 - b))"
    using assms(3) by (simp add: n)
  show ?thesis
    using t
    by (simp add: sort_compare_def spec_comparator_def Let_def i n u Value_Min_def Value_Max_def
          Value_minmax_same_type)
qed

lemma promoted_type: "isFloat x = fl \<Longrightarrow> isFloat y = fl \<Longrightarrow> isFloat (promoted f x y) = fl"
  by (auto simp: promoted_def Value_FloatV_def Value_IntV_def)

lemma spec_comparator_uniform:
  assumes "top_uniform n fl st" "a < n" "b < n"
  shows "top_uniform n fl (spec_comparator st (a, b))"
proof -
  have l: "n \<le> length st" and u: "\<And>i. i < n \<Longrightarrow> isFloat (rev st ! i) = fl"
    using assms(1) by (simp_all add: top_uniform_def)
  have ta: "isFloat (promoted P_Min (rev st ! a) (rev st ! b)) = fl"
    and tb: "isFloat (promoted P_Max (rev st ! a) (rev st ! b)) = fl"
    using u [OF assms(2)] u [OF assms(3)] by (simp_all add: promoted_type)
  have la: "a < length (rev st)" "b < length (rev st)" using assms(2,3) l by simp_all
  have "isFloat (((rev st)[a := promoted P_Min (rev st ! a) (rev st ! b)])
                          [b := promoted P_Max (rev st ! a) (rev st ! b)] ! i) = fl"
    if "i < n" for i
  proof (cases "i = b")
    case True
    then show ?thesis using la tb by simp
  next
    case False
    then show ?thesis using la ta u [OF that] by (cases "i = a") simp_all
  qed
  then show ?thesis using l by (simp add: top_uniform_def spec_comparator_def Let_def)
qed

lemma sort_loop_same_type:
  assumes "top_uniform n fl st" "list_all (\<lambda>(a, b). a < b \<and> b < n) net"
  shows "sort_loop st (net_int net) = Inr (spec_lowering st net)"
  using assms
proof (induction net arbitrary: st)
  case Nil
  then show ?case by (simp add: net_int_def spec_lowering_def)
next
  case (Cons c net)
  obtain a b where c: "c = (a, b)" by (cases c)
  have ab: "a < n" "b < n" using Cons.prems(2) by (auto simp: c)
  have l: "n \<le> length st" and u: "\<And>i. i < n \<Longrightarrow> isFloat (rev st ! i) = fl"
    using Cons.prems(1) by (simp_all add: top_uniform_def)
  have s: "sort_compare st (int a, int b) = Inr (spec_comparator st (a, b))"
    using ab l u [OF ab(1)] u [OF ab(2)] by (intro sort_compare_same_type) simp_all
  have "sort_loop (spec_comparator st (a, b)) (net_int net) =
          Inr (spec_lowering (spec_comparator st (a, b)) net)"
    using Cons.prems(2) by (intro Cons.IH spec_comparator_uniform [OF Cons.prems(1) ab]) simp
  then show ?case using s by (simp add: c net_int_def spec_lowering_def)
qed

text \<open>
  For a count from 2 to \<open>2 ^ 30\<close> and a stack whose \<open>n\<close> topmost values have one type,
  \<open>SORT\<close> is the lowering of the specification applied to its schedule.
\<close>

lemma jit_SORT_same_type:
  assumes "2 \<le> n" "n \<le> 2 ^ 30" "top_uniform n fl st"
  shows "jit_SORT (word_of_int (int n)) st = Inr (spec_lowering st (spec_sortnet n))"
proof -
  have "int n \<le> 2 ^ 30" using assms(2) by (metis of_nat_le_iff of_nat_numeral of_nat_power)
  then have "int n < 2 ^ 31" by simp
  then have "sint (word_of_int (int n) :: 32 word) = int n"
    by (intro sint_fits) simp_all
  moreover have "list_all (\<lambda>(a, b). a < b \<and> b < n) (spec_sortnet n)"
    by (simp add: spec_sortnet_def spec_while_p_pairs)
  ultimately show ?thesis
    using buildSortNet_eq_spec [OF assms(1,2)] sort_loop_same_type [OF assms(3)]
    by (simp add: jit_SORT_def)
qed

lemma spec_sortnet_2: "spec_sortnet 2 = [(0, 1)]"
proof -
  have "buildSortNet 2 = Some [(0, 1)]" by code_simp
  then have "net_int (spec_sortnet 2) = [(0, 1)]"
    using buildSortNet_eq_spec [of 2] by simp
  then show ?thesis by (cases "spec_sortnet 2") (auto simp: net_int_def)
qed

text \<open>
  Claim C4. For \<^verbatim>\<open>sort2\<close> the network of \<^verbatim>\<open>buildSortNet\<close> is the schedule of the
  specification, the one comparator \<open>(0, 1)\<close>. On a stack that holds a float vector below
  an integer constant the specification lowers it to the maximum and the minimum of the
  two values, the constant converted to float. The code generator does not: \<^verbatim>\<open>Value::Min\<close>
  throws \<^verbatim>\<open>std::bad_variant_access\<close> and nothing is written to either slot.
\<close>

theorem sort_comparator_mixed_types:
  "buildSortNet 2 = Some (net_int (spec_sortnet 2)) \<and>
   spec_sortnet 2 = [(0, 1)] \<and>
   spec_lowering [Value_FloatV x, Value_int_const c] (spec_sortnet 2) =
     [Value_FloatV (App P_Max [App P_FloatV [IConst c], x]),
      Value_FloatV (App P_Min [App P_FloatV [IConst c], x])] \<and>
   jit_SORT 2 [Value_FloatV x, Value_int_const c] = Inl bad_variant_access"
proof (intro conjI)
  show "buildSortNet 2 = Some (net_int (spec_sortnet 2))"
    using buildSortNet_eq_spec [of 2] by simp
  show "spec_sortnet 2 = [(0, 1)]" by (rule spec_sortnet_2)
  show "spec_lowering [Value_FloatV x, Value_int_const c] (spec_sortnet 2) =
     [Value_FloatV (App P_Max [App P_FloatV [IConst c], x]),
      Value_FloatV (App P_Min [App P_FloatV [IConst c], x])]"
    by (simp add: spec_sortnet_2 spec_lowering_def spec_comparator_def promoted_def
          ensureFloat_def Value_FloatV_def Value_int_const_def)
  have "buildSortNet 2 = Some [(0, 1)]" by code_simp
  then show "jit_SORT 2 [Value_FloatV x, Value_int_const c] = Inl bad_variant_access"
    by (simp add: jit_SORT_def sort_compare_def at_index_def Value_Min_def Value_minmax_def
          Value_FloatV_def Value_int_const_def)
qed

text \<open>The example of the specification: \<^verbatim>\<open>3 7 1 2 0 4 6 5 sort8\<close>, on integer constants.\<close>

lemma sort8_uniform: "top_uniform 8 False (map Value_int_const [3, 7, 1, 2, 0, 4, 6, 5])"
  by code_simp

lemma sort8_sample:
  "jit_SORT 8 (map Value_int_const [3, 7, 1, 2, 0, 4, 6, 5]) =
     Inr (spec_lowering (map Value_int_const [3, 7, 1, 2, 0, 4, 6, 5]) (spec_sortnet 8))"
  using jit_SORT_same_type [OF _ _ sort8_uniform] by simp

section \<open>Missing frame properties\<close>

lemma read_frame_prop_missing:
  assumes "m name = None"
  shows "snd (read_frame_prop d2f c2f m name) = peUnset"
  using assms
  by (simp add: read_frame_prop_def propGetInt_def peUnset_def peType_def)

lemma read_frame_prop_other_type:
  assumes "m name \<in> {Some ptNode, Some ptFrame, Some ptFunction}"
  shows "snd (read_frame_prop d2f c2f m name) = peType"
  using assms
  by (auto simp: read_frame_prop_def propGetInt_def propGetFloat_def propGetData_def
        peUnset_def peType_def)

text \<open>
  Claim C5. When the map of the frame has no property of the name, or one that is a node,
  a frame or a function, the value read is a NaN in \<^verbatim>\<open>exprGetFrame\<close> and \<open>0.0\<close> in
  \<^verbatim>\<open>selectGetFrame\<close> and \<^verbatim>\<open>propExprGetFrame\<close>. The reads are total functions: none
  has an error to return, and the callback that the interpreter gets at frame time returns
  the value \<open>0.0\<close>, not an error.
\<close>

theorem missing_property_substitution:
  assumes "m name = None \<or> m name \<in> {Some ptNode, Some ptFrame, Some ptFunction}"
  shows "exprGetFrame_prop d2f c2f m name = f32_nan \<and> f32_is_nan f32_nan \<and>
         selectGetFrame_propGet d2f c2f m name = 0 \<and>
         propExprGetFrame_propGet d2f c2f m name = 0 \<and>
         (0 \<le> idx \<and> nat idx < length props \<and> props ! nat idx = m \<longrightarrow>
            propGet (select_frame_env d2f c2f props n w h) idx name = Inr 0 \<and>
            propGet (propExpr_frame_env d2f c2f props n w h) idx name = Inr 0)"
proof -
  have "snd (read_frame_prop d2f c2f m name) \<noteq> 0"
    using assms read_frame_prop_missing [of m name d2f c2f]
      read_frame_prop_other_type [of m name d2f c2f]
    by (auto simp: peUnset_def peType_def)
  moreover have "f32_is_nan f32_nan" by code_simp
  ultimately show ?thesis
    by (simp add: exprGetFrame_prop_def selectGetFrame_propGet_def propExprGetFrame_propGet_def
          select_frame_env_def propExpr_frame_env_def split_beta)
qed

theorem missing_property_substitution_witness:
  "exprGetFrame_prop (\<lambda>d. d) (\<lambda>c. 0) Map.empty ''_Sel'' = f32_nan \<and>
   selectGetFrame_propGet (\<lambda>d. d) (\<lambda>c. 0) [''_Sel'' \<mapsto> ptFrame] ''_Sel'' = 0 \<and>
   propExprGetFrame_propGet (\<lambda>d. d) (\<lambda>c. 0) [''_Sel'' \<mapsto> ptFrame] ''_Sel'' = 0 \<and>
   propGet (select_frame_env (\<lambda>d. d) (\<lambda>c. 0) [[''_Sel'' \<mapsto> ptFrame]] 0 640 480) 0 ''_Sel'' = Inr 0"
  using missing_property_substitution
          [of "Map.empty :: (32 word) VSMap" "''_Sel''" "\<lambda>d. d" "\<lambda>c. 0"]
        missing_property_substitution
          [of "[''_Sel'' \<mapsto> ptFrame] :: (32 word) VSMap" "''_Sel''" "\<lambda>d. d" "\<lambda>c. 0" 0
              "[[''_Sel'' \<mapsto> ptFrame]]" 0 640 480]
  by simp

section \<open>The properties that PropExpr writes\<close>

text \<open>
  The result of an expression at frame time: \<^verbatim>\<open>interpret\<close> returns \<open>v\<close>, or it throws a
  \<^verbatim>\<open>std::runtime_error\<close> and \<open>v\<close> is 0.
\<close>

definition evaluates :: "fops \<Rightarrow> interp_env \<Rightarrow> ExprOp list \<Rightarrow> 32 word \<Rightarrow> bool" where
  "evaluates fl env os v \<longleftrightarrow>
     (case interpret_expr fl env os of
        Inr x \<Rightarrow> v = x
      | Inl e \<Rightarrow> e \<noteq> undefined_behaviour \<and> v = 0)"

text \<open>
  What a key holds after the frame, for the expression \<open>os\<close> of the frame and its result
  \<open>v\<close>: nothing when the expression is empty; one integer, the truncation of \<open>v\<close>, when
  \<open>v\<close> is a whole number that \<^verbatim>\<open>int64_t\<close> holds; one float, \<open>v\<close>, when \<open>v\<close> is no whole
  number (a fraction, an infinity, a NaN) or lies beyond \<open>2 ^ 63\<close> in magnitude. At
  \<open>2 ^ 63\<close> itself, the first value that \<^verbatim>\<open>int64_t\<close> does not hold, the cast decides
  between the two.
\<close>

definition property_written :: "(32 word \<Rightarrow> 'd) \<Rightarrow> ExprOp list \<Rightarrow> 32 word \<Rightarrow> 'd VSPropValue option \<Rightarrow> bool" where
  "property_written f2d os v p \<longleftrightarrow>
     (if os = [] then p = None
      else case f32_trunc v of
             None \<Rightarrow> p = Some (ptFloat [f2d v])
           | Some t \<Rightarrow>
               if - (2 ^ 63) \<le> t \<and> t < 2 ^ 63
               then p = (if f32_is_integer v then Some (ptInt [t]) else Some (ptFloat [f2d v]))
               else if t = 2 ^ 63 then p \<noteq> None
               else p = Some (ptFloat [f2d v]))"

lemma cast_int64_small: "\<bar>f32_cast_int64 uc v\<bar> < 2 ^ 127"
proof -
  have "\<bar>f32_cast_int64 uc v\<bar> \<le> 2 ^ 63" by (rule f32_cast_int64_bounds)
  also have "(2::int) ^ 63 < 2 ^ 127" by simp
  finally show ?thesis .
qed

lemma write_prop_other: "k \<noteq> name \<Longrightarrow> write_prop uc f2d m name os v k = m k"
  by (simp add: write_prop_def propDeleteKey_def propSetInt_def propSetFloat_def)

lemma write_prop_float:
  "os \<noteq> [] \<Longrightarrow> \<not> f32_eq v (f32_of_int (f32_cast_int64 uc v)) \<Longrightarrow>
     write_prop uc f2d m name os v name = Some (ptFloat [f2d v])"
  by (simp add: write_prop_def propDeleteKey_def propSetFloat_def)

lemma write_prop_int:
  "os \<noteq> [] \<Longrightarrow> f32_eq v (f32_of_int (f32_cast_int64 uc v)) \<Longrightarrow>
     write_prop uc f2d m name os v name = Some (ptInt [f32_cast_int64 uc v])"
  by (simp add: write_prop_def propDeleteKey_def propSetInt_def)

lemma write_prop_written: "property_written f2d os v (write_prop uc f2d m name os v name)"
proof (cases "os = []")
  case True
  then show ?thesis by (simp add: property_written_def write_prop_def propDeleteKey_def)
next
  case ne: False
  show ?thesis
  proof (cases "f32_trunc v")
    case None
    then have "f32_exp v = 255" by (simp add: f32_trunc_def Let_def split: if_splits)
    then have "\<not> f32_is_integer v" by (simp add: f32_is_integer_def)
    then have "\<not> f32_eq v (f32_of_int (f32_cast_int64 uc v))"
      using f32_eq_imp_integer [OF _ cast_int64_small, of v uc v] by blast
    then show ?thesis using ne None by (simp add: property_written_def write_prop_float)
  next
    case (Some t)
    show ?thesis
    proof (cases "- (2 ^ 63) \<le> t \<and> t < 2 ^ 63")
      case True
      then have c: "f32_cast_int64 uc v = t"
        using Some by (simp add: f32_cast_int64_def f32_to_int64_def)
      show ?thesis
      proof (cases "f32_is_integer v")
        case w: True
        have "f32_eq v (f32_of_int t)" by (rule f32_roundtrip [OF w Some])
        then show ?thesis
          using ne Some True w write_prop_int [of os v uc f2d m name]
          by (simp add: property_written_def c)
      next
        case w: False
        have "\<not> f32_eq v (f32_of_int (f32_cast_int64 uc v))"
          using f32_eq_imp_integer [OF _ cast_int64_small, of v uc v] w by blast
        then show ?thesis
          using ne Some True w by (simp add: property_written_def write_prop_float)
      qed
    next
      case out: False
      show ?thesis
      proof (cases "t = 2 ^ 63")
        case True
        have "write_prop uc f2d m name os v name \<noteq> None"
          using ne write_prop_int [of os v uc f2d m name] write_prop_float [of os v uc f2d m name]
          by (cases "f32_eq v (f32_of_int (f32_cast_int64 uc v))") simp_all
        then show ?thesis using ne Some out True by (simp add: property_written_def)
      next
        case False
        then have "t < - (2 ^ 63) \<or> 2 ^ 63 < t" using out by auto
        then have "\<not> f32_eq v (f32_of_int (f32_cast_int64 uc v))"
          by (intro f32_eq_out_of_range [OF Some _ f32_cast_int64_bounds]) simp_all
        then show ?thesis
          using ne Some out False by (simp add: property_written_def write_prop_float)
      qed
    qed
  qed
qed

lemma frame_vals_evaluates:
  assumes "list_all2 (\<lambda>pair v. snd pair \<noteq> [] \<and>
              evaluates fl env (snd pair ! (n mod length (snd pair))) v) dops vals"
  shows "frame_vals fl env dops n = Some vals"
  using assms
proof (induction dops vals rule: list_all2_induct)
  case Nil
  then show ?case by simp
next
  case (Cons pair dops v vals)
  have "eval_or_zero fl env (snd pair ! (n mod length (snd pair))) = Some v"
    using Cons.hyps(1) by (auto simp: evaluates_def eval_or_zero_def split: sum.splits)
  then show ?case using Cons.hyps(1) Cons.IH by (simp add: frame_ops_def)
qed

lemma write_props_written:
  assumes "distinct (map fst dops)"
    and "list_all2 (\<lambda>pair v. snd pair \<noteq> [] \<and> P pair v) dops vals"
  shows "\<exists>m'. write_props uc f2d m dops vals n = Some m' \<and>
           list_all2 (\<lambda>pair v. property_written f2d (snd pair ! (n mod length (snd pair))) v
                                   (m' (fst pair))) dops vals \<and>
           (\<forall>k. k \<notin> fst ` set dops \<longrightarrow> m' k = m k)"
  using assms(2,1)
proof (induction dops vals arbitrary: m rule: list_all2_induct)
  case Nil
  then show ?case by simp
next
  case (Cons pair dops v vals)
  define os where "os = snd pair ! (n mod length (snd pair))"
  define m1 where "m1 = write_prop uc f2d m (fst pair) os v"
  have fo: "frame_ops (snd pair) n = Some os"
    using Cons.hyps(1) by (simp add: frame_ops_def os_def)
  have d: "distinct (map fst dops)" and nm: "fst pair \<notin> fst ` set dops"
    using Cons.prems by simp_all
  from Cons.IH [OF d, of m1] obtain m' where
    m': "write_props uc f2d m1 dops vals n = Some m'"
    "list_all2 (\<lambda>pair v. property_written f2d (snd pair ! (n mod length (snd pair))) v
                            (m' (fst pair))) dops vals"
    "\<forall>k. k \<notin> fst ` set dops \<longrightarrow> m' k = m1 k"
    by blast
  have "write_props uc f2d m (pair # dops) (v # vals) n = Some m'"
    using fo m'(1) by (simp add: m1_def)
  moreover have "m' (fst pair) = m1 (fst pair)" using m'(3) nm by simp
  then have "property_written f2d os v (m' (fst pair))"
    using write_prop_written [of f2d os v uc m "fst pair"] by (simp add: m1_def)
  moreover have "\<forall>k. k \<notin> fst ` set (pair # dops) \<longrightarrow> m' k = m k"
    using m'(3) by (simp add: m1_def write_prop_other)
  ultimately show ?case using m'(2) by (auto simp: os_def)
qed

text \<open>
  Claim C6, in the form that holds of the code. Let the keys be distinct, every array hold an expression, and the
  expression of the frame, the one at index \<open>n mod L\<close>, evaluate to \<open>v\<close> for every key.
  Then \<^verbatim>\<open>propExprGetFrame\<close> returns a frame on which every key holds, whatever it held
  before and whatever the cast gives where it is undefined: nothing when the expression
  of the frame is empty; the integer \<open>v\<close> when \<open>v\<close> is a whole number that \<^verbatim>\<open>int64_t\<close>
  holds; the float \<open>v\<close> when \<open>v\<close> is no whole number or lies beyond \<open>2 ^ 63\<close> in magnitude.
  The other properties are those of the frame of the first clip.
\<close>

theorem propexpr_frame_properties:
  assumes "distinct (map fst dops)"
    and "list_all2 (\<lambda>pair v. snd pair \<noteq> [] \<and>
            evaluates fl (propExpr_frame_env d2f c2f (m0 # ms) n w h)
              (snd pair ! (n mod length (snd pair))) v) dops vals"
  shows "\<exists>m'. propExprGetFrame uc fl d2f c2f f2d dops (m0 # ms) w h n = Some m' \<and>
           list_all2 (\<lambda>pair v. property_written f2d (snd pair ! (n mod length (snd pair))) v
                                   (m' (fst pair))) dops vals \<and>
           (\<forall>k. k \<notin> fst ` set dops \<longrightarrow> m' k = m0 k)"
  using write_props_written [OF assms, of uc f2d m0 n] frame_vals_evaluates [OF assms(2)]
  by (simp add: propExprGetFrame_def)


text \<open>
  A sample: arithmetic that the sample expressions never call, a dictionary with the
  expressions \<^verbatim>\<open>N\<close>, \<^verbatim>\<open>1\<close> and \<^verbatim>\<open>1.5\<close> in turn, the empty expression and \<^verbatim>\<open>1e30\<close>, the
  properties of a frame, and the values of the expressions at frame 3.
\<close>

definition fops_unused :: fops where
  "fops_unused =
     \<lparr>fadd = (\<lambda>a b. 0), fsub = (\<lambda>a b. 0), fmul = (\<lambda>a b. 0), fdiv = (\<lambda>a b. 0),
      ffmod = (\<lambda>a b. 0), fpow = (\<lambda>a b. 0), fsqrt = (\<lambda>a. 0), ftrunc = (\<lambda>a. 0),
      fround = (\<lambda>a. 0), ffloor = (\<lambda>a. 0), fexp = (\<lambda>a. 0), flog = (\<lambda>a. 0),
      fsin = (\<lambda>a. 0), fcos = (\<lambda>a. 0), fto_int = (\<lambda>a. 0)\<rparr>"

definition dops_sample :: "(string \<times> ExprOp list list) list" where
  "dops_sample =
     [(''K'', [[mkOpImm CONST_LOAD (word_of_int lc_N)]]),
      (''F'', [[mkOpImm CONSTANTI 1], [mkOpImm CONSTANTF 0x3FC00000]]),
      (''D'', [[]]),
      (''B'', [[mkOpImm CONSTANTF 0x7149F2CA]])]"

definition props_sample :: "(32 word) VSMap" where
  "props_sample = [''K'' \<mapsto> ptInt [1, 2], ''D'' \<mapsto> ptNode, ''Z'' \<mapsto> ptInt [5]]"

definition vals_sample :: "32 word list" where
  "vals_sample = [0x40400000, 0x3FC00000, 0, 0x7149F2CA]"

definition no_char :: "char \<Rightarrow> 32 word" where
  "no_char c = 0"

lemma sample_evaluates:
  "list_all2 (\<lambda>pair v. snd pair \<noteq> [] \<and>
       evaluates fops_unused (propExpr_frame_env id no_char (props_sample # []) 3 640 480)
         (snd pair ! (3 mod length (snd pair))) v) dops_sample vals_sample"
  by code_simp

lemma sample_values:
  "f32_trunc 0x40400000 = Some 3" "f32_is_integer 0x40400000"
  "f32_trunc 0x3FC00000 = Some 1" "\<not> f32_is_integer 0x3FC00000"
  "f32_trunc 0x7149F2CA = Some 1000000015047466219876688855040" "f32_is_integer 0x7149F2CA"
  by code_simp+

theorem propexpr_frame_properties_witness:
  "\<exists>m'. propExprGetFrame cvtt_indefinite64 fops_unused id no_char id dops_sample [props_sample] 640 480 3 = Some m' \<and>
        m' ''K'' = Some (ptInt [3]) \<and> m' ''F'' = Some (ptFloat [0x3FC00000]) \<and> m' ''D'' = None \<and>
        m' ''B'' = Some (ptFloat [0x7149F2CA]) \<and> m' ''Z'' = Some (ptInt [5])"
proof -
  have d: "distinct (map fst dops_sample)" by (simp add: dops_sample_def)
  from propexpr_frame_properties [OF d sample_evaluates, of cvtt_indefinite64 id] obtain m' where
    m': "propExprGetFrame cvtt_indefinite64 fops_unused id no_char id dops_sample [props_sample] 640 480 3 = Some m'"
      "list_all2 (\<lambda>pair v. property_written id (snd pair ! (3 mod length (snd pair))) v
                                   (m' (fst pair))) dops_sample vals_sample"
      "\<forall>k. k \<notin> fst ` set dops_sample \<longrightarrow> m' k = props_sample k"
    by blast
  have "m' ''K'' = Some (ptInt [3])" "m' ''F'' = Some (ptFloat [0x3FC00000])" "m' ''D'' = None"
    "m' ''B'' = Some (ptFloat [0x7149F2CA])"
    using m'(2)
    by (simp_all add: dops_sample_def vals_sample_def property_written_def sample_values
          numeral_3_eq_3 mod_Suc)
  moreover have "m' ''Z'' = Some (ptInt [5])"
    using m'(3) by (simp add: dops_sample_def props_sample_def)
  ultimately show ?thesis using m'(1) by blast
qed

text \<open>
  The claim as it stands fails on a whole number that \<^verbatim>\<open>int64_t\<close> does not hold. The
  expression \<^verbatim>\<open>1e30\<close> evaluates to a value that equals its integer truncation, and the
  property is written as a float (here with the cast of x86).
\<close>

definition frame_prop :: "'d VSMap option \<Rightarrow> string \<Rightarrow> 'd VSPropValue option" where
  "frame_prop r key = (case r of None \<Rightarrow> None | Some m \<Rightarrow> m key)"

theorem propexpr_whole_number_written_as_float:
  "interpret_expr fops_unused (propExpr_frame_env id no_char [props_sample] 0 640 480)
     [mkOpImm CONSTANTF 0x7149F2CA] = Inr 0x7149F2CA \<and>
   f32_is_integer 0x7149F2CA \<and>
   f32_trunc 0x7149F2CA = Some 1000000015047466219876688855040 \<and>
   frame_prop (propExprGetFrame cvtt_indefinite64 fops_unused id no_char id
                 [(''K'', [[mkOpImm CONSTANTF 0x7149F2CA]])] [props_sample] 640 480 0) ''K'' =
     Some (ptFloat [0x7149F2CA])"
  by code_simp

end
